theory Spec2Isabelle
  imports Complex_Main "HOL-Library.Multiset"
begin

section \<open>The k-DOP volume kernel and its optimizers\<close>

text \<open>
  The repository computes the volume of a k-DOP (kdop_volume.hh) and searches for axis
  sets of small volume (sphere_optimizer.cc, image_optimizer.cc).

  Numbers. The code computes in \<^verbatim>\<open>float\<close> and \<^verbatim>\<open>double\<close>. Here both are the type
  \<^typ>\<open>real\<close>: every operation is exact, a decimal literal is the rational it spells, and
  there is no rounding, no signed zero, no infinity and no NaN. Where the C++ would leave
  the finite numbers (a division by zero, the \<^verbatim>\<open>normalize\<close> of the zero vector), the
  model stops with the fault \<open>NonFinite\<close>; where it would read or write past the end of
  an array, with \<open>OutOfBounds\<close>.
\<close>

subsection \<open>GLM vectors\<close>

datatype vec2 = Vec2 (v2x: real) (v2y: real)

datatype vec3 = Vec3 (v3x: real) (v3y: real) (v3z: real)

text \<open>\<^verbatim>\<open>v[i]\<close> on a \<^verbatim>\<open>vec2\<close>; the kernel only uses the indices 0 and 1.\<close>

definition vec2_at :: "vec2 \<Rightarrow> nat \<Rightarrow> real" where
  "vec2_at v i = (if i = 0 then v2x v else v2y v)"

definition dot :: "vec3 \<Rightarrow> vec3 \<Rightarrow> real" where
  "dot a b = v3x a * v3x b + v3y a * v3y b + v3z a * v3z b"

definition cross :: "vec3 \<Rightarrow> vec3 \<Rightarrow> vec3" where
  "cross a b = Vec3 (v3y a * v3z b - v3y b * v3z a)
                    (v3z a * v3x b - v3z b * v3x a)
                    (v3x a * v3y b - v3x b * v3y a)"

definition vadd :: "vec3 \<Rightarrow> vec3 \<Rightarrow> vec3" where
  "vadd a b = Vec3 (v3x a + v3x b) (v3y a + v3y b) (v3z a + v3z b)"

definition vsub :: "vec3 \<Rightarrow> vec3 \<Rightarrow> vec3" where
  "vsub a b = Vec3 (v3x a - v3x b) (v3y a - v3y b) (v3z a - v3z b)"

definition smul :: "real \<Rightarrow> vec3 \<Rightarrow> vec3" where
  "smul s a = Vec3 (s * v3x a) (s * v3y a) (s * v3z a)"

definition vdiv :: "vec3 \<Rightarrow> real \<Rightarrow> vec3" where
  "vdiv a s = Vec3 (v3x a / s) (v3y a / s) (v3z a / s)"

definition zero3 :: vec3 where
  "zero3 = Vec3 0 0 0"

subsection \<open>Faults, array reads and loops\<close>

datatype fault = OutOfBounds | NonFinite

definition bindE :: "fault + 'a \<Rightarrow> ('a \<Rightarrow> fault + 'b) \<Rightarrow> fault + 'b" where
  "bindE m f = (case m of Inl e \<Rightarrow> Inl e | Inr v \<Rightarrow> f v)"

text \<open>\<^verbatim>\<open>p[i]\<close> for a pointer \<^verbatim>\<open>p\<close> to an array whose elements are the list.\<close>

definition load :: "'a list \<Rightarrow> nat \<Rightarrow> fault + 'a" where
  "load xs i = (if i < length xs then Inr (xs ! i) else Inl OutOfBounds)"

text \<open>A \<^verbatim>\<open>for\<close> loop over the given indices; the body maps the loop state to the next one.\<close>

primrec for_each :: "'i list \<Rightarrow> ('i \<Rightarrow> 's \<Rightarrow> fault + 's) \<Rightarrow> 's \<Rightarrow> fault + 's" where
  "for_each [] body s = Inr s"
| "for_each (i # rest) body s = bindE (body i s) (for_each rest body)"

text \<open>
  \<^verbatim>\<open>normalize(v)\<close> is \<^verbatim>\<open>v * inversesqrt(dot(v, v))\<close>: for the zero vector that is
  \<^verbatim>\<open>0 * inf\<close>, a NaN in every component.
\<close>

definition normalize3 :: "vec3 \<Rightarrow> fault + vec3" where
  "normalize3 v = (if dot v v = 0 then Inl NonFinite else Inr (smul (1 / sqrt (dot v v)) v))"

subsection \<open>kdop_trace_range\<close>

text \<open>\<^verbatim>\<open>FLT_MAX\<close>, the largest finite \<^verbatim>\<open>float\<close>.\<close>

definition FLT_MAX :: real where
  "FLT_MAX = (2 - 1 / 2 ^ 23) * 2 ^ 127"

text \<open>The body of the loop for an axis that is not excluded.\<close>

definition trace_slab :: "vec3 \<Rightarrow> vec3 \<Rightarrow> vec3 \<Rightarrow> vec2 \<Rightarrow> real \<times> real \<Rightarrow> real \<times> real" where
  "trace_slab pos dir axis rng nf =
     (let proj_pos = dot pos axis;
          d = dot dir axis
      in if \<bar>d\<bar> < 1 / 10 ^ 7 then nf
         else
           let inv_dir = 1 / d;
               t0 = (v2x rng - proj_pos) * inv_dir;
               t1 = (v2y rng - proj_pos) * inv_dir;
               t_min = min t0 t1;
               t_max = max t0 t1
           in (max (fst nf) t_min, min (snd nf) t_max))"

definition kdop_trace_range ::
  "vec3 \<Rightarrow> vec3 \<Rightarrow> nat \<Rightarrow> vec3 list \<Rightarrow> vec2 list \<Rightarrow> int \<times> int \<Rightarrow> fault + (real \<times> real)" where
  "kdop_trace_range pos dir axis_count axes ranges excluded_axes =
     for_each [0..<axis_count]
       (\<lambda>a nf.
          if int a = fst excluded_axes \<or> int a = snd excluded_axes then Inr nf
          else bindE (load axes a) (\<lambda>axis.
               bindE (load ranges a) (\<lambda>rng.
               Inr (trace_slab pos dir axis rng nf))))
       (- FLT_MAX, FLT_MAX)"



subsection \<open>kdop_distance\<close>

definition axis_distance :: "vec3 \<Rightarrow> vec3 \<Rightarrow> vec2 \<Rightarrow> real" where
  "axis_distance pos axis rng =
     (let proj_pos = dot pos axis
      in if proj_pos < v2x rng then v2x rng - proj_pos
         else if proj_pos > v2y rng then proj_pos - v2y rng
         else 0)"

definition kdop_distance :: "vec3 \<Rightarrow> nat \<Rightarrow> vec3 list \<Rightarrow> vec2 list \<Rightarrow> fault + real" where
  "kdop_distance pos axis_count axes ranges =
     for_each [0..<axis_count]
       (\<lambda>a max_dist.
          bindE (load axes a) (\<lambda>axis.
          bindE (load ranges a) (\<lambda>rng.
          let distance = axis_distance pos axis rng
          in Inr (if distance > max_dist then distance else max_dist))))
       0"

subsection \<open>create_tangent_space and signed_angle\<close>

definition M_1_SQRT3 :: real where
  "M_1_SQRT3 = 57735026918962576451 / 10 ^ 20"

text \<open>A \<^verbatim>\<open>dmat3\<close> by its three columns.\<close>

datatype mat3 = Mat3 (col0: vec3) (col1: vec3) (col2: vec3)

definition create_tangent_space :: "vec3 \<Rightarrow> fault + mat3" where
  "create_tangent_space normal =
     (let major =
            (if \<bar>v3x normal\<bar> < M_1_SQRT3 then Vec3 1 0 0
             else if \<bar>v3y normal\<bar> < M_1_SQRT3 then Vec3 0 1 0
             else Vec3 0 0 1)
      in bindE (normalize3 (cross normal major)) (\<lambda>tangent.
         let bitangent = cross normal tangent
         in Inr (Mat3 tangent bitangent normal)))"

text \<open>
  \<^verbatim>\<open>atan2(y, x)\<close> on finite arguments, with the one zero of the reals read as \<^verbatim>\<open>+0\<close>.
\<close>

definition atan2 :: "real \<Rightarrow> real \<Rightarrow> real" where
  "atan2 y x =
     (if 0 < x then arctan (y / x)
      else if x < 0 then (if 0 \<le> y then arctan (y / x) + pi else arctan (y / x) - pi)
      else if 0 < y then pi / 2
      else if y < 0 then - (pi / 2)
      else 0)"

definition signed_angle :: "vec3 \<Rightarrow> vec3 \<Rightarrow> mat3 \<Rightarrow> real" where
  "signed_angle p pivot tbn =
     (let delta = vsub p pivot
      in atan2 (dot (col0 tbn) delta) (dot (col1 tbn) delta))"

subsection \<open>calc_kdop_volume\<close>

definition epsilon :: real where
  "epsilon = 1 / 10 ^ 5"

text \<open>
  The point on the edge line of the planes \<open>dot x a_axis = h1\<close> and \<open>dot x b_axis = h2\<close>,
  from \<open>d = dot a_axis b_axis\<close> and \<open>inv = 1 / (1 - d * d)\<close>.
\<close>

definition edge_point :: "vec3 \<Rightarrow> vec3 \<Rightarrow> real \<Rightarrow> real \<Rightarrow> real \<Rightarrow> real \<Rightarrow> vec3" where
  "edge_point a_axis b_axis d invd h1 h2 =
     (let c1 = (h1 - h2 * d) * invd;
          c2 = (h2 - h1 * d) * invd
      in vadd (smul c1 a_axis) (smul c2 b_axis))"

text \<open>\<^verbatim>\<open>sides[s].vertices.push_back(v)\<close>; the kernel only pushes to sides that exist.\<close>

definition push_back :: "vec3 list list \<Rightarrow> nat \<Rightarrow> vec3 \<Rightarrow> vec3 list list" where
  "push_back sides s v = sides[s := sides ! s @ [v]]"

text \<open>The body of the loop over the four offset combinations \<open>i\<close> of the axis pair \<open>(a, b)\<close>.\<close>

definition edge_body ::
  "nat \<Rightarrow> vec3 list \<Rightarrow> vec2 list \<Rightarrow> nat \<Rightarrow> nat \<Rightarrow> vec3 \<Rightarrow> vec3 \<Rightarrow> vec3 \<Rightarrow> real \<Rightarrow> real \<Rightarrow>
   nat \<Rightarrow> vec3 list list \<Rightarrow> fault + vec3 list list" where
  "edge_body axis_count axes ranges a b a_axis b_axis dir d invd i sides =
     (let a_high = i mod 2;
          b_high = i div 2;
          a_side = a * 2 + a_high;
          b_side = b * 2 + b_high
      in bindE (load ranges a) (\<lambda>range_a.
         bindE (load ranges b) (\<lambda>range_b.
         let h1 = vec2_at range_a a_high;
             h2 = vec2_at range_b b_high;
             point = edge_point a_axis b_axis d invd h1 h2
         in bindE (kdop_trace_range point dir axis_count axes ranges (int a, int b)) (\<lambda>hits.
            if fst hits > snd hits then Inr sides
            else
              let va = vadd point (smul (fst hits) dir);
                  vb = vadd point (smul (snd hits) dir)
              in bindE (kdop_distance va axis_count axes ranges) (\<lambda>dist.
                 let sides1 = (if dist < epsilon
                               then push_back (push_back sides a_side va) b_side va
                               else sides)
                 in bindE (kdop_distance vb axis_count axes ranges) (\<lambda>dist2.
                    Inr (if dist2 < epsilon
                         then push_back (push_back sides1 a_side vb) b_side vb
                         else sides1)))))))"

text \<open>
  The body of the two outer loops. \<^verbatim>\<open>1.0f / (1 - d * d)\<close> is a division by zero when
  the two axes are parallel unit vectors.
\<close>

definition pair_body ::
  "nat \<Rightarrow> vec3 list \<Rightarrow> vec2 list \<Rightarrow> nat \<Rightarrow> nat \<Rightarrow> vec3 list list \<Rightarrow> fault + vec3 list list" where
  "pair_body axis_count axes ranges a b sides =
     (if b = a then Inr sides
      else bindE (load axes a) (\<lambda>a_axis.
           bindE (load axes b) (\<lambda>b_axis.
           let dir = cross a_axis b_axis;
               d = dot a_axis b_axis
           in if 1 - d * d = 0 then Inl NonFinite
              else
                let invd = 1 / (1 - d * d)
                in for_each [0..<4]
                     (edge_body axis_count axes ranges a b a_axis b_axis dir d invd) sides)))"

definition collect_sides :: "nat \<Rightarrow> vec3 list \<Rightarrow> vec2 list \<Rightarrow> fault + vec3 list list" where
  "collect_sides axis_count axes ranges =
     for_each [0..<axis_count]
       (\<lambda>a. for_each [0..<axis_count] (pair_body axis_count axes ranges a))
       (replicate (axis_count * 2) [])"

text \<open>The first vertex of the first side with more than two vertices, else the origin.\<close>

fun find_ref_center :: "vec3 list list \<Rightarrow> vec3" where
  "find_ref_center [] = zero3"
| "find_ref_center (vertices # rest) =
     (if length vertices > 2 then vertices ! 0 else find_ref_center rest)"

text \<open>
  The erase loop: \<open>prev\<close> starts as the last vertex; a vertex closer than \<open>epsilon\<close> to
  \<open>prev\<close> is erased, any other is kept and becomes \<open>prev\<close>.
\<close>

fun dedup :: "vec3 \<Rightarrow> vec3 list \<Rightarrow> vec3 list" where
  "dedup prev [] = []"
| "dedup prev (cur # rest) =
     (let delta = vsub prev cur
      in if dot delta delta < epsilon * epsilon then dedup prev rest
         else cur # dedup cur rest)"

text \<open>
  The determinant of the 4x4 matrix with the columns \<open>(c0, 1)\<close>, \<open>(c1, 1)\<close>, \<open>(c2, 1)\<close>,
  \<open>(c3, 1)\<close>, expanded along the first column as GLM does.
\<close>

definition determinant :: "vec3 \<Rightarrow> vec3 \<Rightarrow> vec3 \<Rightarrow> vec3 \<Rightarrow> real" where
  "determinant c0 c1 c2 c3 =
     (let SubFactor00 = v3z c2 * 1 - v3z c3 * 1;
          SubFactor01 = v3y c2 * 1 - v3y c3 * 1;
          SubFactor02 = v3y c2 * v3z c3 - v3y c3 * v3z c2;
          SubFactor03 = v3x c2 * 1 - v3x c3 * 1;
          SubFactor04 = v3x c2 * v3z c3 - v3x c3 * v3z c2;
          SubFactor05 = v3x c2 * v3y c3 - v3x c3 * v3y c2;
          DetCof0 = v3y c1 * SubFactor00 - v3z c1 * SubFactor01 + 1 * SubFactor02;
          DetCof1 = - (v3x c1 * SubFactor00 - v3z c1 * SubFactor03 + 1 * SubFactor04);
          DetCof2 = v3x c1 * SubFactor01 - v3y c1 * SubFactor03 + 1 * SubFactor05;
          DetCof3 = - (v3x c1 * SubFactor02 - v3y c1 * SubFactor04 + v3z c1 * SubFactor05)
      in v3x c0 * DetCof0 + v3y c0 * DetCof1 + v3z c0 * DetCof2 + 1 * DetCof3)"

text \<open>The fan loop of one side: \<open>va\<close> is the previous vertex, the list holds the vertices from index 2 on.\<close>

fun fan_volume :: "vec3 \<Rightarrow> vec3 \<Rightarrow> vec3 \<Rightarrow> vec3 list \<Rightarrow> real \<Rightarrow> real" where
  "fan_volume ref2 ref_center va [] total_volume = total_volume"
| "fan_volume ref2 ref_center va (vb # rest) total_volume =
     (let volume = \<bar>determinant va vb ref2 ref_center\<bar> / 6
      in fan_volume ref2 ref_center vb rest (total_volume + volume))"

text \<open>
  \<^verbatim>\<open>std::sort\<close> with the comparator \<open>key a < key b\<close> returns the vertices in some order that
  is sorted by the key; which one, among vertices of equal key, is unspecified. The
  kernel takes the sorting function as the parameter \<open>srt\<close>, and \<open>sorts srt\<close> says that
  it is one \<^verbatim>\<open>std::sort\<close> may be.
\<close>

definition sorts :: "((vec3 \<Rightarrow> real) \<Rightarrow> vec3 list \<Rightarrow> vec3 list) \<Rightarrow> bool" where
  "sorts srt = (\<forall>key vs. mset (srt key vs) = mset vs \<and> sorted (map key (srt key vs)))"

text \<open>The body of the loop over the sides, from the side's axis and vertices.\<close>

definition side_body ::
  "((vec3 \<Rightarrow> real) \<Rightarrow> vec3 list \<Rightarrow> vec3 list) \<Rightarrow> vec3 \<Rightarrow> vec3 \<Rightarrow> vec3 list \<Rightarrow> real \<Rightarrow> fault + real" where
  "side_body srt axis ref_center vertices total_volume =
     (if length vertices \<le> 2 then Inr total_volume
      else bindE (create_tangent_space axis) (\<lambda>tbn.
        let ref = vdiv (foldl vadd zero3 vertices) (real (length vertices));
            sorted_vertices = srt (\<lambda>p. signed_angle p ref tbn) vertices;
            unique = dedup (last sorted_vertices) sorted_vertices
        in if length unique \<le> 2 then Inr total_volume
           else Inr (fan_volume (unique ! 0) ref_center (unique ! 1) (drop 2 unique) total_volume)))"

text \<open>The loop over the sides, from the vertex lists and the reference centre.\<close>

definition sum_sides ::
  "((vec3 \<Rightarrow> real) \<Rightarrow> vec3 list \<Rightarrow> vec3 list) \<Rightarrow> vec3 list \<Rightarrow> vec3 list list \<Rightarrow> vec3 \<Rightarrow> fault + real" where
  "sum_sides srt axes sides ref_center =
     for_each [0..<length sides]
       (\<lambda>i total_volume.
          bindE (load axes (i div 2)) (\<lambda>axis.
          side_body srt axis ref_center (sides ! i) total_volume))
       0"

definition calc_kdop_volume ::
  "((vec3 \<Rightarrow> real) \<Rightarrow> vec3 list \<Rightarrow> vec3 list) \<Rightarrow> nat \<Rightarrow> vec3 list \<Rightarrow> vec2 list \<Rightarrow> fault + real" where
  "calc_kdop_volume srt axis_count axes ranges =
     bindE (collect_sides axis_count axes ranges) (\<lambda>sides.
       let ref_center = find_ref_center sides
       in sum_sides srt axes sides ref_center)"

subsection \<open>find_kdop_volume (image_optimizer.cc)\<close>

text \<open>\<^verbatim>\<open>p[i] = v\<close> for a pointer \<^verbatim>\<open>p\<close> to an array whose elements are the list.\<close>

definition store :: "'a list \<Rightarrow> nat \<Rightarrow> 'a \<Rightarrow> fault + 'a list" where
  "store xs i v = (if i < length xs then Inr (xs[i := v]) else Inl OutOfBounds)"

text \<open>
  The two loops that fill \<^verbatim>\<open>vec2 axis_extents[32]\<close>. The array is not initialised:
  \<open>indet i\<close> is what element \<open>i\<close> holds when the function is entered.
\<close>

definition find_extents :: "(nat \<Rightarrow> vec2) \<Rightarrow> vec3 list \<Rightarrow> vec3 list \<Rightarrow> nat \<Rightarrow> fault + vec2 list" where
  "find_extents indet points axes axis_count =
     bindE (for_each [0..<axis_count]
              (\<lambda>i axis_extents. store axis_extents i (Vec2 (10 ^ 9) (- (10 ^ 9))))
              (map indet [0..<32]))
       (for_each [0..<9]
          (\<lambda>i axis_extents.
             bindE (load points i) (\<lambda>p.
             for_each [0..<axis_count]
               (\<lambda>j axis_extents.
                  bindE (load axis_extents j) (\<lambda>pair.
                  bindE (load axes j) (\<lambda>axis.
                  let d = dot p axis
                  in store axis_extents j (Vec2 (min (v2x pair) d) (max (v2y pair) d)))))
               axis_extents)))"

definition find_kdop_volume ::
  "((vec3 \<Rightarrow> real) \<Rightarrow> vec3 list \<Rightarrow> vec3 list) \<Rightarrow> (nat \<Rightarrow> vec2) \<Rightarrow> vec3 list \<Rightarrow> vec3 list \<Rightarrow> nat \<Rightarrow>
   fault + real" where
  "find_kdop_volume srt indet points axes axis_count =
     bindE (find_extents indet points axes axis_count)
       (calc_kdop_volume srt axis_count axes)"

subsection \<open>The search drivers\<close>

text \<open>
  The drivers keep their volumes in \<^verbatim>\<open>float\<close>. A volume is never negative, so the one
  value outside the reals that a driver compares is \<open>+inf\<close>: the initial
  \<^verbatim>\<open>float best_volume = 1e99\<close>, and a \<^verbatim>\<open>double\<close> above \<open>FLT_MAX\<close> narrowed to \<^verbatim>\<open>float\<close>.
\<close>

datatype flt = Finite real | Infinity

definition to_float :: "real \<Rightarrow> flt" where
  "to_float v = (if FLT_MAX < v then Infinity else Finite v)"

fun flt_less :: "flt \<Rightarrow> flt \<Rightarrow> bool" where
  "flt_less (Finite a) (Finite b) = (a < b)"
| "flt_less (Finite a) Infinity = True"
| "flt_less Infinity b = False"

fun flt_le :: "flt \<Rightarrow> flt \<Rightarrow> bool" where
  "flt_le (Finite a) (Finite b) = (a \<le> b)"
| "flt_le a Infinity = True"
| "flt_le Infinity (Finite b) = False"

text \<open>\<^verbatim>\<open>v[i] = x\<close> on a \<^verbatim>\<open>vec3\<close>, for the component indices 0, 1 and 2.\<close>

definition vec3_set :: "vec3 \<Rightarrow> nat \<Rightarrow> real \<Rightarrow> vec3" where
  "vec3_set v i x =
     (if i = 0 then Vec3 x (v3y v) (v3z v)
      else if i = 1 then Vec3 (v3x v) x (v3z v)
      else Vec3 (v3x v) (v3y v) x)"

text \<open>
  The forced axes of the command line, \<open>forced\<close> being the numbers \<^verbatim>\<open>atof\<close> reads from
  the arguments after the axis count: the loop state is \<open>(best_axes, locked_axes)\<close>.
\<close>

definition read_forced :: "nat \<Rightarrow> real list \<Rightarrow> fault + (vec3 list \<times> nat)" where
  "read_forced axis_count forced =
     for_each [0..<length forced]
       (\<lambda>i (best_axes, locked_axes).
          let component_index = i mod 3;
              locked_axes = (if component_index = 0 then locked_axes + 1 else locked_axes)
          in bindE (load best_axes (locked_axes - 1)) (\<lambda>v.
             bindE (store best_axes (locked_axes - 1) (vec3_set v component_index (forced ! i)))
               (\<lambda>best_axes. Inr (best_axes, locked_axes))))
       (replicate axis_count zero3, 0)"

definition normalize_locked :: "nat \<Rightarrow> vec3 list \<Rightarrow> fault + vec3 list" where
  "normalize_locked locked_axes best_axes =
     for_each [0..<locked_axes]
       (\<lambda>i best_axes.
          bindE (load best_axes i) (\<lambda>v.
          bindE (normalize3 v) (\<lambda>u.
          store best_axes i u)))
       best_axes"

text \<open>
  The candidate of one iteration: every free axis is moved by \<open>step i\<close> and normalized.
  In the sphere optimizer \<open>step i\<close> is \<^verbatim>\<open>sphericalRand(perturbation)\<close>, in the image
  optimizer \<^verbatim>\<open>temperature * sample_sphere(seed)\<close>; the random draws are inputs of the model.
\<close>

definition perturb_axes :: "nat \<Rightarrow> nat \<Rightarrow> (nat \<Rightarrow> vec3) \<Rightarrow> vec3 list \<Rightarrow> fault + vec3 list" where
  "perturb_axes locked_axes axis_count step best_axes =
     for_each [locked_axes..<axis_count]
       (\<lambda>i axes.
          bindE (load axes i) (\<lambda>v.
          bindE (normalize3 (vadd v (step i))) (\<lambda>u.
          store axes i u)))
       best_axes"

subsubsection \<open>sphere_optimizer.cc\<close>

record sphere_state =
  best_volume :: flt
  best_axes :: "vec3 list"
  no_improvement :: int
  perturbation :: real

definition sphere_init :: "nat \<Rightarrow> real list \<Rightarrow> fault + (sphere_state \<times> nat)" where
  "sphere_init axis_count forced =
     bindE (read_forced axis_count forced) (\<lambda>(axes, locked_axes).
     bindE (normalize_locked locked_axes axes) (\<lambda>axes.
     Inr (\<lparr>best_volume = Infinity, best_axes = axes, no_improvement = 0, perturbation = 2\<rparr>,
          locked_axes)))"

text \<open>The accept or reject part of the loop body, from the candidate and its volume.\<close>

definition sphere_accept :: "vec3 list \<Rightarrow> flt \<Rightarrow> sphere_state \<Rightarrow> sphere_state" where
  "sphere_accept axes volume s =
     (if flt_less volume (best_volume s)
      then s\<lparr>best_volume := volume, best_axes := axes, no_improvement := 0\<rparr>
      else
        let s1 = s\<lparr>no_improvement := no_improvement s + 1\<rparr>
        in if no_improvement s1 > 1000
           then s1\<lparr>perturbation := perturbation s1 * (1 / 2), no_improvement := 0\<rparr>
           else s1)"

definition sphere_step ::
  "((vec3 \<Rightarrow> real) \<Rightarrow> vec3 list \<Rightarrow> vec3 list) \<Rightarrow> nat \<Rightarrow> nat \<Rightarrow> (nat \<Rightarrow> vec3) \<Rightarrow> sphere_state \<Rightarrow>
   fault + sphere_state" where
  "sphere_step srt locked_axes axis_count step s =
     bindE (perturb_axes locked_axes axis_count step (best_axes s)) (\<lambda>axes.
     bindE (calc_kdop_volume srt (length axes) axes (replicate axis_count (Vec2 (- 1) 1))) (\<lambda>v.
     Inr (sphere_accept axes (to_float v) s)))"

text \<open>
  The state after at most \<open>n\<close> iterations of \<^verbatim>\<open>for(int j = 0; perturbation > 1e-5; ++j)\<close>;
  \<open>rnd j\<close> are the draws of iteration \<open>j\<close>.
\<close>

primrec sphere_loop ::
  "((vec3 \<Rightarrow> real) \<Rightarrow> vec3 list \<Rightarrow> vec3 list) \<Rightarrow> nat \<Rightarrow> nat \<Rightarrow> (nat \<Rightarrow> nat \<Rightarrow> vec3) \<Rightarrow> nat \<Rightarrow>
   sphere_state \<Rightarrow> fault + sphere_state" where
  "sphere_loop srt locked_axes axis_count rnd 0 s = Inr s"
| "sphere_loop srt locked_axes axis_count rnd (Suc j) s =
     bindE (sphere_loop srt locked_axes axis_count rnd j s) (\<lambda>s'.
       if perturbation s' > 1 / 10 ^ 5
       then sphere_step srt locked_axes axis_count (rnd j) s'
       else Inr s')"

text \<open>The axis the final loop prints for a best axis.\<close>

definition snap_axis :: "vec3 \<Rightarrow> fault + vec3" where
  "snap_axis v =
     (let v1 = (if \<bar>v3x v\<bar> < 5 / 10 ^ 3 then Vec3 0 (v3y v) (v3z v) else v);
          v2 = (if \<bar>v3y v1\<bar> < 5 / 10 ^ 3 then Vec3 (v3x v1) 0 (v3z v1) else v1);
          v3 = (if \<bar>v3z v2\<bar> < 5 / 10 ^ 3 then Vec3 (v3x v2) (v3y v2) 0 else v2)
      in normalize3 v3)"

text \<open>The final loop over \<open>i < axis_count\<close>: the state is the best axes and the axes printed so far.\<close>

definition sphere_print :: "nat \<Rightarrow> vec3 list \<Rightarrow> fault + (vec3 list \<times> vec3 list)" where
  "sphere_print axis_count axes =
     for_each [0..<axis_count]
       (\<lambda>i (best_axes, printed).
          bindE (load best_axes i) (\<lambda>v.
          bindE (snap_axis v) (\<lambda>u.
          bindE (store best_axes i u) (\<lambda>best_axes.
          Inr (best_axes, printed @ [u])))))
       (axes, [])"

subsubsection \<open>image_optimizer.cc\<close>







subsection \<open>Notions used in the statements and proofs\<close>

text \<open>What one point does to the extent of axis \<open>j\<close> in \<^verbatim>\<open>find_kdop_volume\<close>.\<close>

definition widen :: "vec3 list \<Rightarrow> vec3 \<Rightarrow> nat \<Rightarrow> vec2 \<Rightarrow> vec2" where
  "widen axes p j pair =
     Vec2 (min (v2x pair) (dot p (axes ! j))) (max (v2y pair) (dot p (axes ! j)))"


text \<open>The extent of axis \<open>j\<close> after the first \<open>m\<close> points, starting from \<open>(1e9, -1e9)\<close>.\<close>

definition seen_extent :: "vec3 list \<Rightarrow> vec3 list \<Rightarrow> nat \<Rightarrow> nat \<Rightarrow> vec2" where
  "seen_extent points axes m j =
     Vec2 (Min (insert (10 ^ 9) ((\<lambda>i. dot (points ! i) (axes ! j)) ` {..<m})))
          (Max (insert (- (10 ^ 9)) ((\<lambda>i. dot (points ! i) (axes ! j)) ` {..<m})))"


text \<open>
  The locked axis that \<^verbatim>\<open>sphere_optimizer 1 1 0.001 0\<close> keeps: \<open>(1, 0.001, 0)\<close> normalized.
\<close>

definition tilted :: vec3 where
  "tilted = smul (1 / sqrt (1000001 / 1000000)) (Vec3 1 (1 / 1000) 0)"


section \<open>Properties\<close>

lemma bindE_simps [simp]:
  "bindE (Inl e) f = Inl e"
  "bindE (Inr v) f = f v"
  by (simp_all add: bindE_def)

lemma upt_0_2: "[0..<2] = [0, 1]"
  by (simp add: upt_rec)

lemma upt_0_3: "[0..<3] = [0, 1, 2]"
  by (simp add: upt_rec)

lemma upt_0_4: "[0..<4] = [0, 1, 2, 3]"
  by (simp add: upt_rec)

lemma upt_0_6: "[0..<6] = [0, 1, 2, 3, 4, 5]"
  by (simp add: upt_rec)

subsection \<open>Vector algebra\<close>

lemma dot_vadd: "dot (vadd p q) a = dot p a + dot q a"
  by (simp add: dot_def vadd_def algebra_simps)

lemma dot_smul: "dot (smul s p) a = s * dot p a"
  by (simp add: dot_def smul_def algebra_simps)

lemma dot_commute: "dot a b = dot b a"
  by (simp add: dot_def mult.commute)

subsection \<open>The edge point\<close>

text \<open>
  C5. For unit axes \<open>a\<close> and \<open>b\<close> with \<open>d = dot a b\<close>, \<open>d * d \<noteq> 1\<close> and
  \<open>invd = 1 / (1 - d * d)\<close>, the point \<open>c1 a + c2 b\<close> the kernel computes lies on both
  planes: its dot product with \<open>a\<close> is \<open>h1\<close> and with \<open>b\<close> is \<open>h2\<close>. (Unit axes with
  \<open>d * d \<noteq> 1\<close> are distinct, so distinctness is not a separate hypothesis.)
\<close>

theorem edge_point_on_planes:
  assumes "dot a a = 1" and "dot b b = 1"
    and "d = dot a b" and "d * d \<noteq> 1" and "invd = 1 / (1 - d * d)"
  shows "dot (edge_point a b d invd h1 h2) a = h1 \<and> dot (edge_point a b d invd h1 h2) b = h2"
proof -
  have nz: "1 - d * d \<noteq> 0" using assms(4) by simp
  have ba: "dot b a = d" using assms(3) by (simp add: dot_commute)
  have "dot (edge_point a b d invd h1 h2) a = ((h1 - h2 * d) + (h2 - h1 * d) * d) / (1 - d * d)"
    by (simp add: edge_point_def Let_def dot_vadd dot_smul assms(1) ba assms(5) add_divide_distrib)
  also have "\<dots> = h1 * (1 - d * d) / (1 - d * d)"
    by (simp add: algebra_simps)
  also have "\<dots> = h1" using nz by simp
  finally have A: "dot (edge_point a b d invd h1 h2) a = h1" .
  have "dot (edge_point a b d invd h1 h2) b = ((h1 - h2 * d) * d + (h2 - h1 * d)) / (1 - d * d)"
    by (simp add: edge_point_def Let_def dot_vadd dot_smul assms(2) assms(3)[symmetric] assms(5) add_divide_distrib)
  also have "\<dots> = h2 * (1 - d * d) / (1 - d * d)"
    by (simp add: algebra_simps)
  also have "\<dots> = h2" using nz by simp
  finally have B: "dot (edge_point a b d invd h1 h2) b = h2" .
  from A B show ?thesis by simp
qed

text \<open>The theorem at the axes \<open>(1, 0, 0)\<close> and \<open>(3/5, 4/5, 0)\<close>, offsets \<open>-1\<close> and \<open>1\<close>.\<close>

theorem edge_point_on_planes_witness:
  "dot (Vec3 1 0 0) (Vec3 1 0 0) = 1 \<and> dot (Vec3 (3/5) (4/5) 0) (Vec3 (3/5) (4/5) 0) = 1 \<and>
   (3/5) * (3/5) \<noteq> (1::real) \<and>
   edge_point (Vec3 1 0 0) (Vec3 (3/5) (4/5) 0) (3/5) (25/16) (- 1) 1 = Vec3 (- 1) 2 0 \<and>
   dot (edge_point (Vec3 1 0 0) (Vec3 (3/5) (4/5) 0) (3/5) (25/16) (- 1) 1) (Vec3 1 0 0) = - 1 \<and>
   dot (edge_point (Vec3 1 0 0) (Vec3 (3/5) (4/5) 0) (3/5) (25/16) (- 1) 1) (Vec3 (3/5) (4/5) 0) = 1"
  using edge_point_on_planes [of "Vec3 1 0 0" "Vec3 (3/5) (4/5) 0" "3/5" "25/16" "- 1" 1]
  by (simp add: dot_def edge_point_def vadd_def smul_def)

subsection \<open>The tracer\<close>












subsection \<open>The distance check\<close>







subsection \<open>The volume kernel\<close>


lemma for_each_partial:
  assumes "for_each idx body s = Inr s'" and "I s"
    and "\<And>i s s'. i \<in> set idx \<Longrightarrow> I s \<Longrightarrow> body i s = Inr s' \<Longrightarrow> I s'"
  shows "I s'"
  using assms
proof (induction idx arbitrary: s)
  case Nil
  then show ?case by simp
next
  case (Cons i idx)
  from Cons.prems(1) obtain s1 where s1: "body i s = Inr s1" "for_each idx body s1 = Inr s'"
    by (cases "body i s") auto
  have "I s1" using Cons.prems(3)[of i s s1] Cons.prems(2) s1(1) by simp
  show ?case
    by (rule Cons.IH[OF s1(2) \<open>I s1\<close>]) (use Cons.prems(3) in auto)
qed



lemma length_push_back [simp]: "length (push_back sides s v) = length sides"
  by (simp add: push_back_def)










lemma all_less_2: "(\<forall>a<(2::nat). P a) = (P 0 \<and> P 1)"
proof -
  have "(a < 2) = (a = 0 \<or> a = 1)" for a :: nat by auto
  then show ?thesis by auto
qed





text \<open>
  C6. For \<open>axis_count = 1\<close>, the single axis \<open>(1, 0, 0)\<close> and the extent \<open>(-1, 1)\<close>, the
  kernel returns exactly 0, with no fault: there is no axis pair, both sides stay
  without vertices and are skipped. This holds whatever sorting function is used.
\<close>

theorem calc_kdop_volume_single_axis:
  "calc_kdop_volume srt 1 [Vec3 1 0 0] [Vec2 (- 1) 1] = Inr 0"
  by (simp add: calc_kdop_volume_def sum_sides_def collect_sides_def pair_body_def side_body_def load_def upt_0_2)

subsection \<open>The cube\<close>

text \<open>The vertex lists of the six sides after the edge loops, in the order of the pushes.\<close>

lemma replicate_6: "replicate 6 x = [x, x, x, x, x, x]"
  by (simp add: numeral_eq_Suc)

lemma cube_sides:
  "collect_sides 3 [Vec3 1 0 0, Vec3 0 1 0, Vec3 0 0 1]
     [Vec2 (- 1) 1, Vec2 (- 1) 1, Vec2 (- 1) 1] = Inr
     [[Vec3 (- 1) (- 1) (- 1), Vec3 (- 1) (- 1) 1, Vec3 (- 1) 1 (- 1), Vec3 (- 1) 1 1, Vec3 (- 1) 1 (- 1), Vec3 (- 1) (- 1) (- 1), Vec3 (- 1) 1 1, Vec3 (- 1) (- 1) 1, Vec3 (- 1) (- 1) 1, Vec3 (- 1) (- 1) (- 1), Vec3 (- 1) 1 1, Vec3 (- 1) 1 (- 1), Vec3 (- 1) (- 1) (- 1), Vec3 (- 1) 1 (- 1), Vec3 (- 1) (- 1) 1, Vec3 (- 1) 1 1],
      [Vec3 1 (- 1) (- 1), Vec3 1 (- 1) 1, Vec3 1 1 (- 1), Vec3 1 1 1, Vec3 1 1 (- 1), Vec3 1 (- 1) (- 1), Vec3 1 1 1, Vec3 1 (- 1) 1, Vec3 1 (- 1) 1, Vec3 1 (- 1) (- 1), Vec3 1 1 1, Vec3 1 1 (- 1), Vec3 1 (- 1) (- 1), Vec3 1 1 (- 1), Vec3 1 (- 1) 1, Vec3 1 1 1],
      [Vec3 (- 1) (- 1) (- 1), Vec3 (- 1) (- 1) 1, Vec3 1 (- 1) (- 1), Vec3 1 (- 1) 1, Vec3 (- 1) (- 1) 1, Vec3 (- 1) (- 1) (- 1), Vec3 1 (- 1) 1, Vec3 1 (- 1) (- 1), Vec3 (- 1) (- 1) (- 1), Vec3 1 (- 1) (- 1), Vec3 (- 1) (- 1) 1, Vec3 1 (- 1) 1, Vec3 1 (- 1) (- 1), Vec3 (- 1) (- 1) (- 1), Vec3 1 (- 1) 1, Vec3 (- 1) (- 1) 1],
      [Vec3 (- 1) 1 (- 1), Vec3 (- 1) 1 1, Vec3 1 1 (- 1), Vec3 1 1 1, Vec3 (- 1) 1 1, Vec3 (- 1) 1 (- 1), Vec3 1 1 1, Vec3 1 1 (- 1), Vec3 (- 1) 1 (- 1), Vec3 1 1 (- 1), Vec3 (- 1) 1 1, Vec3 1 1 1, Vec3 1 1 (- 1), Vec3 (- 1) 1 (- 1), Vec3 1 1 1, Vec3 (- 1) 1 1],
      [Vec3 (- 1) 1 (- 1), Vec3 (- 1) (- 1) (- 1), Vec3 1 1 (- 1), Vec3 1 (- 1) (- 1), Vec3 (- 1) (- 1) (- 1), Vec3 1 (- 1) (- 1), Vec3 (- 1) 1 (- 1), Vec3 1 1 (- 1), Vec3 (- 1) (- 1) (- 1), Vec3 (- 1) 1 (- 1), Vec3 1 (- 1) (- 1), Vec3 1 1 (- 1), Vec3 1 (- 1) (- 1), Vec3 (- 1) (- 1) (- 1), Vec3 1 1 (- 1), Vec3 (- 1) 1 (- 1)],
      [Vec3 (- 1) 1 1, Vec3 (- 1) (- 1) 1, Vec3 1 1 1, Vec3 1 (- 1) 1, Vec3 (- 1) (- 1) 1, Vec3 1 (- 1) 1, Vec3 (- 1) 1 1, Vec3 1 1 1, Vec3 (- 1) (- 1) 1, Vec3 (- 1) 1 1, Vec3 1 (- 1) 1, Vec3 1 1 1, Vec3 1 (- 1) 1, Vec3 (- 1) (- 1) 1, Vec3 1 1 1, Vec3 (- 1) 1 1]]
"
  by (simp add: collect_sides_def pair_body_def edge_body_def upt_0_3 upt_0_4 load_def
      kdop_trace_range_def trace_slab_def kdop_distance_def
      axis_distance_def dot_def cross_def vadd_def smul_def edge_point_def vec2_at_def
      push_back_def epsilon_def FLT_MAX_def Let_def replicate_6)

text \<open>
  A list sorted by a key that tells the elements of the list apart is determined by its
  elements, so every \<open>srt\<close> with \<open>sorts srt\<close> returns it.
\<close>

lemma filter_key_eq:
  assumes "\<forall>x\<in>set vs. \<forall>y\<in>set vs. key x = key y \<longrightarrow> x = y" and "k \<in> set vs"
  shows "filter (\<lambda>x. key k = key x) vs = replicate (count (mset vs) k) k"
proof -
  have "filter (\<lambda>x. key k = key x) vs = filter (\<lambda>x. k = x) vs"
    using assms by (intro filter_cong) auto
  also have "\<dots> = replicate (count (mset vs) k) k"
    by (induction vs) auto
  finally show ?thesis .
qed

lemma sorted_by_key_unique:
  assumes "sorted (map key ys)" and "mset ys = mset vs"
    and "\<forall>x\<in>set vs. \<forall>y\<in>set vs. key x = key y \<longrightarrow> x = y"
  shows "sort_key key vs = ys"
proof (rule properties_for_sort_key[OF assms(2) _ assms(1)])
  fix k assume k: "k \<in> set ys"
  have sets: "set ys = set vs" using assms(2) by (rule mset_eq_setD)
  have "filter (\<lambda>x. key k = key x) ys = replicate (count (mset ys) k) k"
    using filter_key_eq[of ys key k] assms(3) k sets by simp
  moreover have "filter (\<lambda>x. key k = key x) vs = replicate (count (mset vs) k) k"
    using filter_key_eq[of vs key k] assms(3) k sets by simp
  ultimately show "filter (\<lambda>x. key k = key x) ys = filter (\<lambda>x. key k = key x) vs"
    using assms(2) by simp
qed

lemma sorts_unique:
  assumes "sorts srt" and "sorted (map key ys)" and "mset ys = mset vs"
    and "\<forall>x\<in>set vs. \<forall>y\<in>set vs. key x = key y \<longrightarrow> x = y"
  shows "srt key vs = ys"
proof -
  have a: "sorted (map key (srt key vs))" and b: "mset (srt key vs) = mset vs"
    using assms(1) by (simp_all add: sorts_def)
  have "sort_key key vs = srt key vs" by (rule sorted_by_key_unique[OF a b assms(4)])
  moreover have "sort_key key vs = ys" by (rule sorted_by_key_unique[OF assms(2,3,4)])
  ultimately show ?thesis by simp
qed

lemma sorts_sort_key: "sorts sort_key"
  by (simp add: sorts_def)

lemma atan2_pp: "atan2 1 1 = pi / 4"
  by (simp add: atan2_def arctan_one)

lemma atan2_pm: "atan2 1 (- 1) = 3 * pi / 4"
  by (simp add: atan2_def arctan_one arctan_minus)

lemma atan2_mm: "atan2 (- 1) (- 1) = - (3 * pi / 4)"
  by (simp add: atan2_def arctan_one)

lemma atan2_mp: "atan2 (- 1) 1 = - (pi / 4)"
  by (simp add: atan2_def arctan_one arctan_minus)

lemma tangent_x: "create_tangent_space (Vec3 1 0 0) = Inr (Mat3 (Vec3 0 0 1) (Vec3 0 (- 1) 0) (Vec3 1 0 0))"
  by (simp add: create_tangent_space_def M_1_SQRT3_def normalize3_def cross_def dot_def smul_def)

lemma tangent_y: "create_tangent_space (Vec3 0 1 0) = Inr (Mat3 (Vec3 0 0 (- 1)) (Vec3 (- 1) 0 0) (Vec3 0 1 0))"
  by (simp add: create_tangent_space_def M_1_SQRT3_def normalize3_def cross_def dot_def smul_def)

lemma tangent_z: "create_tangent_space (Vec3 0 0 1) = Inr (Mat3 (Vec3 0 1 0) (Vec3 (- 1) 0 0) (Vec3 0 0 1))"
  by (simp add: create_tangent_space_def M_1_SQRT3_def normalize3_def cross_def dot_def smul_def)

text \<open>
  Each side of the cube: the centroid, the angles of the four corners, the sorted list,
  the four corners that the erase loop leaves, and the two tetrahedra of the fan.
\<close>

lemma cube_side_0:
  assumes "sorts srt"
  shows "side_body srt (Vec3 1 0 0) (Vec3 (- 1) (- 1) (- 1))
     [Vec3 (- 1) (- 1) (- 1), Vec3 (- 1) (- 1) 1, Vec3 (- 1) 1 (- 1), Vec3 (- 1) 1 1, Vec3 (- 1) 1 (- 1), Vec3 (- 1) (- 1) (- 1), Vec3 (- 1) 1 1, Vec3 (- 1) (- 1) 1, Vec3 (- 1) (- 1) 1, Vec3 (- 1) (- 1) (- 1), Vec3 (- 1) 1 1, Vec3 (- 1) 1 (- 1), Vec3 (- 1) (- 1) (- 1), Vec3 (- 1) 1 (- 1), Vec3 (- 1) (- 1) 1, Vec3 (- 1) 1 1] tot = Inr (tot + 0)"
proof -
  let ?vs = "[Vec3 (- 1) (- 1) (- 1), Vec3 (- 1) (- 1) 1, Vec3 (- 1) 1 (- 1), Vec3 (- 1) 1 1, Vec3 (- 1) 1 (- 1), Vec3 (- 1) (- 1) (- 1), Vec3 (- 1) 1 1, Vec3 (- 1) (- 1) 1, Vec3 (- 1) (- 1) 1, Vec3 (- 1) (- 1) (- 1), Vec3 (- 1) 1 1, Vec3 (- 1) 1 (- 1), Vec3 (- 1) (- 1) (- 1), Vec3 (- 1) 1 (- 1), Vec3 (- 1) (- 1) 1, Vec3 (- 1) 1 1]"
  let ?ys = "[Vec3 (- 1) 1 (- 1), Vec3 (- 1) 1 (- 1), Vec3 (- 1) 1 (- 1), Vec3 (- 1) 1 (- 1), Vec3 (- 1) (- 1) (- 1), Vec3 (- 1) (- 1) (- 1), Vec3 (- 1) (- 1) (- 1), Vec3 (- 1) (- 1) (- 1), Vec3 (- 1) (- 1) 1, Vec3 (- 1) (- 1) 1, Vec3 (- 1) (- 1) 1, Vec3 (- 1) (- 1) 1, Vec3 (- 1) 1 1, Vec3 (- 1) 1 1, Vec3 (- 1) 1 1, Vec3 (- 1) 1 1]"
  let ?tbn = "Mat3 (Vec3 0 0 1) (Vec3 0 (- 1) 0) (Vec3 1 0 0)"
  have ref: "vdiv (foldl vadd zero3 ?vs) (real (length ?vs)) = Vec3 (- 1) 0 0"
    by (simp add: vdiv_def vadd_def zero3_def)
  have keys:
    "signed_angle (Vec3 (- 1) 1 (- 1)) (Vec3 (- 1) 0 0) (Mat3 (Vec3 0 0 1) (Vec3 0 (- 1) 0) (Vec3 1 0 0)) = - (3 * pi / 4)"
    "signed_angle (Vec3 (- 1) (- 1) (- 1)) (Vec3 (- 1) 0 0) (Mat3 (Vec3 0 0 1) (Vec3 0 (- 1) 0) (Vec3 1 0 0)) = - (pi / 4)"
    "signed_angle (Vec3 (- 1) (- 1) 1) (Vec3 (- 1) 0 0) (Mat3 (Vec3 0 0 1) (Vec3 0 (- 1) 0) (Vec3 1 0 0)) = pi / 4"
    "signed_angle (Vec3 (- 1) 1 1) (Vec3 (- 1) 0 0) (Mat3 (Vec3 0 0 1) (Vec3 0 (- 1) 0) (Vec3 1 0 0)) = 3 * pi / 4"
    by (simp_all add: signed_angle_def vsub_def dot_def atan2_pp atan2_pm atan2_mm atan2_mp)
  have srt: "srt (\<lambda>p. signed_angle p (Vec3 (- 1) 0 0) ?tbn) ?vs = ?ys"
  proof (rule sorts_unique[OF assms])
    show "sorted (map (\<lambda>p. signed_angle p (Vec3 (- 1) 0 0) ?tbn) ?ys)"
      by (simp add: keys sorted2_simps del: sorted_wrt.simps)
    show "mset ?ys = mset ?vs" by simp
    show "\<forall>x\<in>set ?vs. \<forall>y\<in>set ?vs.
        signed_angle x (Vec3 (- 1) 0 0) ?tbn = signed_angle y (Vec3 (- 1) 0 0) ?tbn \<longrightarrow> x = y"
      by (simp add: keys)
  qed
  have dd: "dedup (last ?ys) ?ys = [Vec3 (- 1) 1 (- 1), Vec3 (- 1) (- 1) (- 1), Vec3 (- 1) (- 1) 1, Vec3 (- 1) 1 1]"
    by (simp add: vsub_def dot_def epsilon_def)
  have fan: "fan_volume (Vec3 (- 1) 1 (- 1)) (Vec3 (- 1) (- 1) (- 1)) (Vec3 (- 1) (- 1) (- 1)) [Vec3 (- 1) (- 1) 1, Vec3 (- 1) 1 1] tot = tot + 0"
    by (simp add: determinant_def Let_def)
  show ?thesis
    unfolding side_body_def Let_def tangent_x bindE_simps ref srt dd
    by (simp add: fan del: fan_volume.simps)
qed

lemma cube_side_1:
  assumes "sorts srt"
  shows "side_body srt (Vec3 1 0 0) (Vec3 (- 1) (- 1) (- 1))
     [Vec3 1 (- 1) (- 1), Vec3 1 (- 1) 1, Vec3 1 1 (- 1), Vec3 1 1 1, Vec3 1 1 (- 1), Vec3 1 (- 1) (- 1), Vec3 1 1 1, Vec3 1 (- 1) 1, Vec3 1 (- 1) 1, Vec3 1 (- 1) (- 1), Vec3 1 1 1, Vec3 1 1 (- 1), Vec3 1 (- 1) (- 1), Vec3 1 1 (- 1), Vec3 1 (- 1) 1, Vec3 1 1 1] tot = Inr (tot + (8 / 3))"
proof -
  let ?vs = "[Vec3 1 (- 1) (- 1), Vec3 1 (- 1) 1, Vec3 1 1 (- 1), Vec3 1 1 1, Vec3 1 1 (- 1), Vec3 1 (- 1) (- 1), Vec3 1 1 1, Vec3 1 (- 1) 1, Vec3 1 (- 1) 1, Vec3 1 (- 1) (- 1), Vec3 1 1 1, Vec3 1 1 (- 1), Vec3 1 (- 1) (- 1), Vec3 1 1 (- 1), Vec3 1 (- 1) 1, Vec3 1 1 1]"
  let ?ys = "[Vec3 1 1 (- 1), Vec3 1 1 (- 1), Vec3 1 1 (- 1), Vec3 1 1 (- 1), Vec3 1 (- 1) (- 1), Vec3 1 (- 1) (- 1), Vec3 1 (- 1) (- 1), Vec3 1 (- 1) (- 1), Vec3 1 (- 1) 1, Vec3 1 (- 1) 1, Vec3 1 (- 1) 1, Vec3 1 (- 1) 1, Vec3 1 1 1, Vec3 1 1 1, Vec3 1 1 1, Vec3 1 1 1]"
  let ?tbn = "Mat3 (Vec3 0 0 1) (Vec3 0 (- 1) 0) (Vec3 1 0 0)"
  have ref: "vdiv (foldl vadd zero3 ?vs) (real (length ?vs)) = Vec3 1 0 0"
    by (simp add: vdiv_def vadd_def zero3_def)
  have keys:
    "signed_angle (Vec3 1 1 (- 1)) (Vec3 1 0 0) (Mat3 (Vec3 0 0 1) (Vec3 0 (- 1) 0) (Vec3 1 0 0)) = - (3 * pi / 4)"
    "signed_angle (Vec3 1 (- 1) (- 1)) (Vec3 1 0 0) (Mat3 (Vec3 0 0 1) (Vec3 0 (- 1) 0) (Vec3 1 0 0)) = - (pi / 4)"
    "signed_angle (Vec3 1 (- 1) 1) (Vec3 1 0 0) (Mat3 (Vec3 0 0 1) (Vec3 0 (- 1) 0) (Vec3 1 0 0)) = pi / 4"
    "signed_angle (Vec3 1 1 1) (Vec3 1 0 0) (Mat3 (Vec3 0 0 1) (Vec3 0 (- 1) 0) (Vec3 1 0 0)) = 3 * pi / 4"
    by (simp_all add: signed_angle_def vsub_def dot_def atan2_pp atan2_pm atan2_mm atan2_mp)
  have srt: "srt (\<lambda>p. signed_angle p (Vec3 1 0 0) ?tbn) ?vs = ?ys"
  proof (rule sorts_unique[OF assms])
    show "sorted (map (\<lambda>p. signed_angle p (Vec3 1 0 0) ?tbn) ?ys)"
      by (simp add: keys sorted2_simps del: sorted_wrt.simps)
    show "mset ?ys = mset ?vs" by simp
    show "\<forall>x\<in>set ?vs. \<forall>y\<in>set ?vs.
        signed_angle x (Vec3 1 0 0) ?tbn = signed_angle y (Vec3 1 0 0) ?tbn \<longrightarrow> x = y"
      by (simp add: keys)
  qed
  have dd: "dedup (last ?ys) ?ys = [Vec3 1 1 (- 1), Vec3 1 (- 1) (- 1), Vec3 1 (- 1) 1, Vec3 1 1 1]"
    by (simp add: vsub_def dot_def epsilon_def)
  have fan: "fan_volume (Vec3 1 1 (- 1)) (Vec3 (- 1) (- 1) (- 1)) (Vec3 1 (- 1) (- 1)) [Vec3 1 (- 1) 1, Vec3 1 1 1] tot = tot + (8 / 3)"
    by (simp add: determinant_def Let_def)
  show ?thesis
    unfolding side_body_def Let_def tangent_x bindE_simps ref srt dd
    by (simp add: fan del: fan_volume.simps)
qed

lemma cube_side_2:
  assumes "sorts srt"
  shows "side_body srt (Vec3 0 1 0) (Vec3 (- 1) (- 1) (- 1))
     [Vec3 (- 1) (- 1) (- 1), Vec3 (- 1) (- 1) 1, Vec3 1 (- 1) (- 1), Vec3 1 (- 1) 1, Vec3 (- 1) (- 1) 1, Vec3 (- 1) (- 1) (- 1), Vec3 1 (- 1) 1, Vec3 1 (- 1) (- 1), Vec3 (- 1) (- 1) (- 1), Vec3 1 (- 1) (- 1), Vec3 (- 1) (- 1) 1, Vec3 1 (- 1) 1, Vec3 1 (- 1) (- 1), Vec3 (- 1) (- 1) (- 1), Vec3 1 (- 1) 1, Vec3 (- 1) (- 1) 1] tot = Inr (tot + 0)"
proof -
  let ?vs = "[Vec3 (- 1) (- 1) (- 1), Vec3 (- 1) (- 1) 1, Vec3 1 (- 1) (- 1), Vec3 1 (- 1) 1, Vec3 (- 1) (- 1) 1, Vec3 (- 1) (- 1) (- 1), Vec3 1 (- 1) 1, Vec3 1 (- 1) (- 1), Vec3 (- 1) (- 1) (- 1), Vec3 1 (- 1) (- 1), Vec3 (- 1) (- 1) 1, Vec3 1 (- 1) 1, Vec3 1 (- 1) (- 1), Vec3 (- 1) (- 1) (- 1), Vec3 1 (- 1) 1, Vec3 (- 1) (- 1) 1]"
  let ?ys = "[Vec3 1 (- 1) 1, Vec3 1 (- 1) 1, Vec3 1 (- 1) 1, Vec3 1 (- 1) 1, Vec3 (- 1) (- 1) 1, Vec3 (- 1) (- 1) 1, Vec3 (- 1) (- 1) 1, Vec3 (- 1) (- 1) 1, Vec3 (- 1) (- 1) (- 1), Vec3 (- 1) (- 1) (- 1), Vec3 (- 1) (- 1) (- 1), Vec3 (- 1) (- 1) (- 1), Vec3 1 (- 1) (- 1), Vec3 1 (- 1) (- 1), Vec3 1 (- 1) (- 1), Vec3 1 (- 1) (- 1)]"
  let ?tbn = "Mat3 (Vec3 0 0 (- 1)) (Vec3 (- 1) 0 0) (Vec3 0 1 0)"
  have ref: "vdiv (foldl vadd zero3 ?vs) (real (length ?vs)) = Vec3 0 (- 1) 0"
    by (simp add: vdiv_def vadd_def zero3_def)
  have keys:
    "signed_angle (Vec3 1 (- 1) 1) (Vec3 0 (- 1) 0) (Mat3 (Vec3 0 0 (- 1)) (Vec3 (- 1) 0 0) (Vec3 0 1 0)) = - (3 * pi / 4)"
    "signed_angle (Vec3 (- 1) (- 1) 1) (Vec3 0 (- 1) 0) (Mat3 (Vec3 0 0 (- 1)) (Vec3 (- 1) 0 0) (Vec3 0 1 0)) = - (pi / 4)"
    "signed_angle (Vec3 (- 1) (- 1) (- 1)) (Vec3 0 (- 1) 0) (Mat3 (Vec3 0 0 (- 1)) (Vec3 (- 1) 0 0) (Vec3 0 1 0)) = pi / 4"
    "signed_angle (Vec3 1 (- 1) (- 1)) (Vec3 0 (- 1) 0) (Mat3 (Vec3 0 0 (- 1)) (Vec3 (- 1) 0 0) (Vec3 0 1 0)) = 3 * pi / 4"
    by (simp_all add: signed_angle_def vsub_def dot_def atan2_pp atan2_pm atan2_mm atan2_mp)
  have srt: "srt (\<lambda>p. signed_angle p (Vec3 0 (- 1) 0) ?tbn) ?vs = ?ys"
  proof (rule sorts_unique[OF assms])
    show "sorted (map (\<lambda>p. signed_angle p (Vec3 0 (- 1) 0) ?tbn) ?ys)"
      by (simp add: keys sorted2_simps del: sorted_wrt.simps)
    show "mset ?ys = mset ?vs" by simp
    show "\<forall>x\<in>set ?vs. \<forall>y\<in>set ?vs.
        signed_angle x (Vec3 0 (- 1) 0) ?tbn = signed_angle y (Vec3 0 (- 1) 0) ?tbn \<longrightarrow> x = y"
      by (simp add: keys)
  qed
  have dd: "dedup (last ?ys) ?ys = [Vec3 1 (- 1) 1, Vec3 (- 1) (- 1) 1, Vec3 (- 1) (- 1) (- 1), Vec3 1 (- 1) (- 1)]"
    by (simp add: vsub_def dot_def epsilon_def)
  have fan: "fan_volume (Vec3 1 (- 1) 1) (Vec3 (- 1) (- 1) (- 1)) (Vec3 (- 1) (- 1) 1) [Vec3 (- 1) (- 1) (- 1), Vec3 1 (- 1) (- 1)] tot = tot + 0"
    by (simp add: determinant_def Let_def)
  show ?thesis
    unfolding side_body_def Let_def tangent_y bindE_simps ref srt dd
    by (simp add: fan del: fan_volume.simps)
qed

lemma cube_side_3:
  assumes "sorts srt"
  shows "side_body srt (Vec3 0 1 0) (Vec3 (- 1) (- 1) (- 1))
     [Vec3 (- 1) 1 (- 1), Vec3 (- 1) 1 1, Vec3 1 1 (- 1), Vec3 1 1 1, Vec3 (- 1) 1 1, Vec3 (- 1) 1 (- 1), Vec3 1 1 1, Vec3 1 1 (- 1), Vec3 (- 1) 1 (- 1), Vec3 1 1 (- 1), Vec3 (- 1) 1 1, Vec3 1 1 1, Vec3 1 1 (- 1), Vec3 (- 1) 1 (- 1), Vec3 1 1 1, Vec3 (- 1) 1 1] tot = Inr (tot + (8 / 3))"
proof -
  let ?vs = "[Vec3 (- 1) 1 (- 1), Vec3 (- 1) 1 1, Vec3 1 1 (- 1), Vec3 1 1 1, Vec3 (- 1) 1 1, Vec3 (- 1) 1 (- 1), Vec3 1 1 1, Vec3 1 1 (- 1), Vec3 (- 1) 1 (- 1), Vec3 1 1 (- 1), Vec3 (- 1) 1 1, Vec3 1 1 1, Vec3 1 1 (- 1), Vec3 (- 1) 1 (- 1), Vec3 1 1 1, Vec3 (- 1) 1 1]"
  let ?ys = "[Vec3 1 1 1, Vec3 1 1 1, Vec3 1 1 1, Vec3 1 1 1, Vec3 (- 1) 1 1, Vec3 (- 1) 1 1, Vec3 (- 1) 1 1, Vec3 (- 1) 1 1, Vec3 (- 1) 1 (- 1), Vec3 (- 1) 1 (- 1), Vec3 (- 1) 1 (- 1), Vec3 (- 1) 1 (- 1), Vec3 1 1 (- 1), Vec3 1 1 (- 1), Vec3 1 1 (- 1), Vec3 1 1 (- 1)]"
  let ?tbn = "Mat3 (Vec3 0 0 (- 1)) (Vec3 (- 1) 0 0) (Vec3 0 1 0)"
  have ref: "vdiv (foldl vadd zero3 ?vs) (real (length ?vs)) = Vec3 0 1 0"
    by (simp add: vdiv_def vadd_def zero3_def)
  have keys:
    "signed_angle (Vec3 1 1 1) (Vec3 0 1 0) (Mat3 (Vec3 0 0 (- 1)) (Vec3 (- 1) 0 0) (Vec3 0 1 0)) = - (3 * pi / 4)"
    "signed_angle (Vec3 (- 1) 1 1) (Vec3 0 1 0) (Mat3 (Vec3 0 0 (- 1)) (Vec3 (- 1) 0 0) (Vec3 0 1 0)) = - (pi / 4)"
    "signed_angle (Vec3 (- 1) 1 (- 1)) (Vec3 0 1 0) (Mat3 (Vec3 0 0 (- 1)) (Vec3 (- 1) 0 0) (Vec3 0 1 0)) = pi / 4"
    "signed_angle (Vec3 1 1 (- 1)) (Vec3 0 1 0) (Mat3 (Vec3 0 0 (- 1)) (Vec3 (- 1) 0 0) (Vec3 0 1 0)) = 3 * pi / 4"
    by (simp_all add: signed_angle_def vsub_def dot_def atan2_pp atan2_pm atan2_mm atan2_mp)
  have srt: "srt (\<lambda>p. signed_angle p (Vec3 0 1 0) ?tbn) ?vs = ?ys"
  proof (rule sorts_unique[OF assms])
    show "sorted (map (\<lambda>p. signed_angle p (Vec3 0 1 0) ?tbn) ?ys)"
      by (simp add: keys sorted2_simps del: sorted_wrt.simps)
    show "mset ?ys = mset ?vs" by simp
    show "\<forall>x\<in>set ?vs. \<forall>y\<in>set ?vs.
        signed_angle x (Vec3 0 1 0) ?tbn = signed_angle y (Vec3 0 1 0) ?tbn \<longrightarrow> x = y"
      by (simp add: keys)
  qed
  have dd: "dedup (last ?ys) ?ys = [Vec3 1 1 1, Vec3 (- 1) 1 1, Vec3 (- 1) 1 (- 1), Vec3 1 1 (- 1)]"
    by (simp add: vsub_def dot_def epsilon_def)
  have fan: "fan_volume (Vec3 1 1 1) (Vec3 (- 1) (- 1) (- 1)) (Vec3 (- 1) 1 1) [Vec3 (- 1) 1 (- 1), Vec3 1 1 (- 1)] tot = tot + (8 / 3)"
    by (simp add: determinant_def Let_def)
  show ?thesis
    unfolding side_body_def Let_def tangent_y bindE_simps ref srt dd
    by (simp add: fan del: fan_volume.simps)
qed

lemma cube_side_4:
  assumes "sorts srt"
  shows "side_body srt (Vec3 0 0 1) (Vec3 (- 1) (- 1) (- 1))
     [Vec3 (- 1) 1 (- 1), Vec3 (- 1) (- 1) (- 1), Vec3 1 1 (- 1), Vec3 1 (- 1) (- 1), Vec3 (- 1) (- 1) (- 1), Vec3 1 (- 1) (- 1), Vec3 (- 1) 1 (- 1), Vec3 1 1 (- 1), Vec3 (- 1) (- 1) (- 1), Vec3 (- 1) 1 (- 1), Vec3 1 (- 1) (- 1), Vec3 1 1 (- 1), Vec3 1 (- 1) (- 1), Vec3 (- 1) (- 1) (- 1), Vec3 1 1 (- 1), Vec3 (- 1) 1 (- 1)] tot = Inr (tot + 0)"
proof -
  let ?vs = "[Vec3 (- 1) 1 (- 1), Vec3 (- 1) (- 1) (- 1), Vec3 1 1 (- 1), Vec3 1 (- 1) (- 1), Vec3 (- 1) (- 1) (- 1), Vec3 1 (- 1) (- 1), Vec3 (- 1) 1 (- 1), Vec3 1 1 (- 1), Vec3 (- 1) (- 1) (- 1), Vec3 (- 1) 1 (- 1), Vec3 1 (- 1) (- 1), Vec3 1 1 (- 1), Vec3 1 (- 1) (- 1), Vec3 (- 1) (- 1) (- 1), Vec3 1 1 (- 1), Vec3 (- 1) 1 (- 1)]"
  let ?ys = "[Vec3 1 (- 1) (- 1), Vec3 1 (- 1) (- 1), Vec3 1 (- 1) (- 1), Vec3 1 (- 1) (- 1), Vec3 (- 1) (- 1) (- 1), Vec3 (- 1) (- 1) (- 1), Vec3 (- 1) (- 1) (- 1), Vec3 (- 1) (- 1) (- 1), Vec3 (- 1) 1 (- 1), Vec3 (- 1) 1 (- 1), Vec3 (- 1) 1 (- 1), Vec3 (- 1) 1 (- 1), Vec3 1 1 (- 1), Vec3 1 1 (- 1), Vec3 1 1 (- 1), Vec3 1 1 (- 1)]"
  let ?tbn = "Mat3 (Vec3 0 1 0) (Vec3 (- 1) 0 0) (Vec3 0 0 1)"
  have ref: "vdiv (foldl vadd zero3 ?vs) (real (length ?vs)) = Vec3 0 0 (- 1)"
    by (simp add: vdiv_def vadd_def zero3_def)
  have keys:
    "signed_angle (Vec3 1 (- 1) (- 1)) (Vec3 0 0 (- 1)) (Mat3 (Vec3 0 1 0) (Vec3 (- 1) 0 0) (Vec3 0 0 1)) = - (3 * pi / 4)"
    "signed_angle (Vec3 (- 1) (- 1) (- 1)) (Vec3 0 0 (- 1)) (Mat3 (Vec3 0 1 0) (Vec3 (- 1) 0 0) (Vec3 0 0 1)) = - (pi / 4)"
    "signed_angle (Vec3 (- 1) 1 (- 1)) (Vec3 0 0 (- 1)) (Mat3 (Vec3 0 1 0) (Vec3 (- 1) 0 0) (Vec3 0 0 1)) = pi / 4"
    "signed_angle (Vec3 1 1 (- 1)) (Vec3 0 0 (- 1)) (Mat3 (Vec3 0 1 0) (Vec3 (- 1) 0 0) (Vec3 0 0 1)) = 3 * pi / 4"
    by (simp_all add: signed_angle_def vsub_def dot_def atan2_pp atan2_pm atan2_mm atan2_mp)
  have srt: "srt (\<lambda>p. signed_angle p (Vec3 0 0 (- 1)) ?tbn) ?vs = ?ys"
  proof (rule sorts_unique[OF assms])
    show "sorted (map (\<lambda>p. signed_angle p (Vec3 0 0 (- 1)) ?tbn) ?ys)"
      by (simp add: keys sorted2_simps del: sorted_wrt.simps)
    show "mset ?ys = mset ?vs" by simp
    show "\<forall>x\<in>set ?vs. \<forall>y\<in>set ?vs.
        signed_angle x (Vec3 0 0 (- 1)) ?tbn = signed_angle y (Vec3 0 0 (- 1)) ?tbn \<longrightarrow> x = y"
      by (simp add: keys)
  qed
  have dd: "dedup (last ?ys) ?ys = [Vec3 1 (- 1) (- 1), Vec3 (- 1) (- 1) (- 1), Vec3 (- 1) 1 (- 1), Vec3 1 1 (- 1)]"
    by (simp add: vsub_def dot_def epsilon_def)
  have fan: "fan_volume (Vec3 1 (- 1) (- 1)) (Vec3 (- 1) (- 1) (- 1)) (Vec3 (- 1) (- 1) (- 1)) [Vec3 (- 1) 1 (- 1), Vec3 1 1 (- 1)] tot = tot + 0"
    by (simp add: determinant_def Let_def)
  show ?thesis
    unfolding side_body_def Let_def tangent_z bindE_simps ref srt dd
    by (simp add: fan del: fan_volume.simps)
qed

lemma cube_side_5:
  assumes "sorts srt"
  shows "side_body srt (Vec3 0 0 1) (Vec3 (- 1) (- 1) (- 1))
     [Vec3 (- 1) 1 1, Vec3 (- 1) (- 1) 1, Vec3 1 1 1, Vec3 1 (- 1) 1, Vec3 (- 1) (- 1) 1, Vec3 1 (- 1) 1, Vec3 (- 1) 1 1, Vec3 1 1 1, Vec3 (- 1) (- 1) 1, Vec3 (- 1) 1 1, Vec3 1 (- 1) 1, Vec3 1 1 1, Vec3 1 (- 1) 1, Vec3 (- 1) (- 1) 1, Vec3 1 1 1, Vec3 (- 1) 1 1] tot = Inr (tot + (8 / 3))"
proof -
  let ?vs = "[Vec3 (- 1) 1 1, Vec3 (- 1) (- 1) 1, Vec3 1 1 1, Vec3 1 (- 1) 1, Vec3 (- 1) (- 1) 1, Vec3 1 (- 1) 1, Vec3 (- 1) 1 1, Vec3 1 1 1, Vec3 (- 1) (- 1) 1, Vec3 (- 1) 1 1, Vec3 1 (- 1) 1, Vec3 1 1 1, Vec3 1 (- 1) 1, Vec3 (- 1) (- 1) 1, Vec3 1 1 1, Vec3 (- 1) 1 1]"
  let ?ys = "[Vec3 1 (- 1) 1, Vec3 1 (- 1) 1, Vec3 1 (- 1) 1, Vec3 1 (- 1) 1, Vec3 (- 1) (- 1) 1, Vec3 (- 1) (- 1) 1, Vec3 (- 1) (- 1) 1, Vec3 (- 1) (- 1) 1, Vec3 (- 1) 1 1, Vec3 (- 1) 1 1, Vec3 (- 1) 1 1, Vec3 (- 1) 1 1, Vec3 1 1 1, Vec3 1 1 1, Vec3 1 1 1, Vec3 1 1 1]"
  let ?tbn = "Mat3 (Vec3 0 1 0) (Vec3 (- 1) 0 0) (Vec3 0 0 1)"
  have ref: "vdiv (foldl vadd zero3 ?vs) (real (length ?vs)) = Vec3 0 0 1"
    by (simp add: vdiv_def vadd_def zero3_def)
  have keys:
    "signed_angle (Vec3 1 (- 1) 1) (Vec3 0 0 1) (Mat3 (Vec3 0 1 0) (Vec3 (- 1) 0 0) (Vec3 0 0 1)) = - (3 * pi / 4)"
    "signed_angle (Vec3 (- 1) (- 1) 1) (Vec3 0 0 1) (Mat3 (Vec3 0 1 0) (Vec3 (- 1) 0 0) (Vec3 0 0 1)) = - (pi / 4)"
    "signed_angle (Vec3 (- 1) 1 1) (Vec3 0 0 1) (Mat3 (Vec3 0 1 0) (Vec3 (- 1) 0 0) (Vec3 0 0 1)) = pi / 4"
    "signed_angle (Vec3 1 1 1) (Vec3 0 0 1) (Mat3 (Vec3 0 1 0) (Vec3 (- 1) 0 0) (Vec3 0 0 1)) = 3 * pi / 4"
    by (simp_all add: signed_angle_def vsub_def dot_def atan2_pp atan2_pm atan2_mm atan2_mp)
  have srt: "srt (\<lambda>p. signed_angle p (Vec3 0 0 1) ?tbn) ?vs = ?ys"
  proof (rule sorts_unique[OF assms])
    show "sorted (map (\<lambda>p. signed_angle p (Vec3 0 0 1) ?tbn) ?ys)"
      by (simp add: keys sorted2_simps del: sorted_wrt.simps)
    show "mset ?ys = mset ?vs" by simp
    show "\<forall>x\<in>set ?vs. \<forall>y\<in>set ?vs.
        signed_angle x (Vec3 0 0 1) ?tbn = signed_angle y (Vec3 0 0 1) ?tbn \<longrightarrow> x = y"
      by (simp add: keys)
  qed
  have dd: "dedup (last ?ys) ?ys = [Vec3 1 (- 1) 1, Vec3 (- 1) (- 1) 1, Vec3 (- 1) 1 1, Vec3 1 1 1]"
    by (simp add: vsub_def dot_def epsilon_def)
  have fan: "fan_volume (Vec3 1 (- 1) 1) (Vec3 (- 1) (- 1) (- 1)) (Vec3 (- 1) (- 1) 1) [Vec3 (- 1) 1 1, Vec3 1 1 1] tot = tot + (8 / 3)"
    by (simp add: determinant_def Let_def)
  show ?thesis
    unfolding side_body_def Let_def tangent_z bindE_simps ref srt dd
    by (simp add: fan del: fan_volume.simps)
qed

text \<open>
  C1. For \<open>axis_count = 3\<close>, the three standard basis vectors as axes and the extents
  \<open>(-1, 1)\<close> on every axis, the kernel returns 8, the volume of the cube \<open>[-1, 1]\<^sup>3\<close>,
  exactly (and so within every tolerance), whichever order \<^verbatim>\<open>std::sort\<close> gives
  to vertices of equal angle.
\<close>

theorem calc_kdop_volume_cube:
  assumes "sorts srt"
  shows "calc_kdop_volume srt 3 [Vec3 1 0 0, Vec3 0 1 0, Vec3 0 0 1]
           [Vec2 (- 1) 1, Vec2 (- 1) 1, Vec2 (- 1) 1] = Inr 8"
  unfolding calc_kdop_volume_def sum_sides_def cube_sides bindE_simps Let_def
  by (simp add: upt_0_6 load_def cube_side_0[OF assms] cube_side_1[OF assms] cube_side_2[OF assms]
      cube_side_3[OF assms] cube_side_4[OF assms] cube_side_5[OF assms]
      del: fan_volume.simps dedup.simps)

text \<open>The theorem for the insertion sort \<open>sort_key\<close>.\<close>

theorem calc_kdop_volume_cube_witness:
  "sorts sort_key \<and>
   calc_kdop_volume sort_key 3 [Vec3 1 0 0, Vec3 0 1 0, Vec3 0 0 1]
     [Vec2 (- 1) 1, Vec2 (- 1) 1, Vec2 (- 1) 1] = Inr 8"
  using calc_kdop_volume_cube [of sort_key] sorts_sort_key by simp

subsection \<open>The extents of find_kdop_volume\<close>

lemma for_each_append:
  "for_each (xs @ ys) body s = bindE (for_each xs body s) (for_each ys body)"
  by (induction xs arbitrary: s) (auto simp: bindE_def split: sum.splits)

lemma for_each_pointwise:
  assumes "k \<le> length buf"
    and "\<And>i b. i < k \<Longrightarrow> length b = length buf \<Longrightarrow> body i b = Inr (b[i := g i (b ! i)])"
  shows "for_each [0..<k] body buf =
         Inr (map (\<lambda>i. if i < k then g i (buf ! i) else buf ! i) [0..<length buf])"
  using assms
proof (induction k)
  case 0
  then show ?case by (simp add: map_nth)
next
  case (Suc k)
  let ?b = "map (\<lambda>i. if i < k then g i (buf ! i) else buf ! i) [0..<length buf]"
  have IH: "for_each [0..<k] body buf = Inr ?b"
    using Suc by simp
  have len: "length ?b = length buf" by simp
  have k: "k < length buf" using Suc.prems(1) by simp
  have "body k ?b = Inr (?b[k := g k (?b ! k)])"
    using Suc.prems(2)[of k ?b] len by simp
  moreover have "?b[k := g k (?b ! k)] =
      map (\<lambda>i. if i < Suc k then g i (buf ! i) else buf ! i) [0..<length buf]"
    using k by (intro nth_equalityI) (auto simp: nth_list_update less_Suc_eq)
  ultimately show ?case
    by (simp add: for_each_append IH)
qed

lemma point_loop:
  assumes "axis_count \<le> 32" and "axis_count \<le> length axes" and "length buf = 32"
  shows "for_each [0..<axis_count]
               (\<lambda>j axis_extents.
                  bindE (load axis_extents j) (\<lambda>pair.
                  bindE (load axes j) (\<lambda>axis.
                  let d = dot p axis
                  in store axis_extents j (Vec2 (min (v2x pair) d) (max (v2y pair) d)))))
               buf =
         Inr (map (\<lambda>j. if j < axis_count then widen axes p j (buf ! j) else buf ! j) [0..<32])"
proof -
  have "for_each [0..<axis_count]
               (\<lambda>j axis_extents.
                  bindE (load axis_extents j) (\<lambda>pair.
                  bindE (load axes j) (\<lambda>axis.
                  let d = dot p axis
                  in store axis_extents j (Vec2 (min (v2x pair) d) (max (v2y pair) d)))))
               buf =
         Inr (map (\<lambda>j. if j < axis_count then widen axes p j (buf ! j) else buf ! j) [0..<length buf])"
    by (rule for_each_pointwise) (use assms in \<open>auto simp: load_def store_def widen_def Let_def\<close>)
  then show ?thesis using assms(3) by simp
qed

lemma init_loop:
  assumes "axis_count \<le> 32"
  shows "for_each [0..<axis_count]
              (\<lambda>i axis_extents. store axis_extents i (Vec2 (10 ^ 9) (- (10 ^ 9))))
              (map indet [0..<32]) =
         Inr (map (\<lambda>i. if i < axis_count then Vec2 (10 ^ 9) (- (10 ^ 9)) else indet i) [0..<32])"
proof -
  have "for_each [0..<axis_count]
              (\<lambda>i axis_extents. store axis_extents i (Vec2 (10 ^ 9) (- (10 ^ 9))))
              (map indet [0..<32]) =
         Inr (map (\<lambda>i. if i < axis_count then Vec2 (10 ^ 9) (- (10 ^ 9)) else map indet [0..<32] ! i)
                [0..<length (map indet [0..<32])])"
    by (rule for_each_pointwise) (use assms in \<open>auto simp: store_def\<close>)
  then show ?thesis by (simp cong: map_cong)
qed

lemma init_loop_overflow:
  assumes "32 < axis_count"
  shows "for_each [0..<axis_count]
              (\<lambda>i axis_extents. store axis_extents i (Vec2 (10 ^ 9) (- (10 ^ 9))))
              (map indet [0..<32]) = Inl OutOfBounds"
proof -
  have a: "[0..<axis_count] = [0..<32] @ [32..<axis_count]"
    using upt_add_eq_append[of 0 32 "axis_count - 32"] assms by simp
  have b: "[32..<axis_count] = 32 # [Suc 32..<axis_count]"
    using assms by (simp add: upt_conv_Cons)
  have split: "[0..<axis_count] = [0..<32] @ 32 # [Suc 32..<axis_count]"
    using a b by simp
  have "for_each [0..<32]
              (\<lambda>i axis_extents. store axis_extents i (Vec2 (10 ^ 9) (- (10 ^ 9))))
              (map indet [0..<32]) =
         Inr (map (\<lambda>i. if i < 32 then Vec2 (10 ^ 9) (- (10 ^ 9)) else indet i) [0..<32])"
    by (rule init_loop) simp
  then show ?thesis
    unfolding split for_each_append by (simp add: store_def)
qed

lemma seen_extent_0: "seen_extent points axes 0 j = Vec2 (10 ^ 9) (- (10 ^ 9))"
  by (simp add: seen_extent_def)

lemma seen_extent_Suc:
  "seen_extent points axes (Suc m) j = widen axes (points ! m) j (seen_extent points axes m j)"
proof -
  let ?S = "(\<lambda>i. dot (points ! i) (axes ! j)) ` {..<m}"
  have fin: "finite ?S" by simp
  have img: "(\<lambda>i. dot (points ! i) (axes ! j)) ` {..<Suc m} = insert (dot (points ! m) (axes ! j)) ?S"
    by (simp add: lessThan_Suc)
  have mn: "Min (insert c (insert d ?S)) = min (Min (insert c ?S)) d" for c d :: real
    using fin by (simp add: insert_commute[of c d] min.commute del: Min_insert)
       (simp add: min.commute)
  have mx: "Max (insert c (insert d ?S)) = max (Max (insert c ?S)) d" for c d :: real
    using fin by (simp add: insert_commute[of c d] max.commute del: Max_insert)
       (simp add: max.commute)
  show ?thesis
    unfolding seen_extent_def widen_def img vec2.sel mn mx ..
qed

lemma points_loop:
  assumes "axis_count \<le> 32" and "axis_count \<le> length axes" and "m \<le> length points"
  shows "for_each [0..<m]
          (\<lambda>i axis_extents.
             bindE (load points i) (\<lambda>p.
             for_each [0..<axis_count]
               (\<lambda>j axis_extents.
                  bindE (load axis_extents j) (\<lambda>pair.
                  bindE (load axes j) (\<lambda>axis.
                  let d = dot p axis
                  in store axis_extents j (Vec2 (min (v2x pair) d) (max (v2y pair) d)))))
               axis_extents))
          (map (\<lambda>i. if i < axis_count then Vec2 (10 ^ 9) (- (10 ^ 9)) else indet i) [0..<32]) =
         Inr (map (\<lambda>j. if j < axis_count then seen_extent points axes m j else indet j) [0..<32])"
  using assms(3)
proof (induction m)
  case 0
  then show ?case by (simp add: seen_extent_0)
next
  case (Suc m)
  let ?buf = "map (\<lambda>j. if j < axis_count then seen_extent points axes m j else indet j) [0..<32]"
  have len: "length ?buf = 32" by simp
  have lp: "load points m = Inr (points ! m)" using Suc.prems by (simp add: load_def)
  have next_buf: "map (\<lambda>j. if j < axis_count then widen axes (points ! m) j (?buf ! j) else ?buf ! j) [0..<32]
      = map (\<lambda>j. if j < axis_count then seen_extent points axes (Suc m) j else indet j) [0..<32]"
    by (rule map_cong) (auto simp: seen_extent_Suc)
  from Suc show ?case
    by (simp add: for_each_append lp point_loop[OF assms(1,2) len] next_buf del: upt_Suc)
       (simp add: for_each_append lp point_loop[OF assms(1,2) len] next_buf)
qed

lemma find_extents_value:
  assumes "axis_count \<le> 32" and "9 \<le> length points" and "axis_count \<le> length axes"
  shows "find_extents indet points axes axis_count =
         Inr (map (\<lambda>j. if j < axis_count then seen_extent points axes 9 j else indet j) [0..<32])"
  unfolding find_extents_def init_loop[OF assms(1)] bindE_simps
  by (rule points_loop[OF assms(1,3,2)])

lemma find_extents_overflow:
  assumes "32 < axis_count"
  shows "find_extents indet points axes axis_count = Inl OutOfBounds"
  unfolding find_extents_def init_loop_overflow[OF assms] bindE_simps ..

lemma seen_extent_9:
  "seen_extent points axes 9 j =
     Vec2 (min (10 ^ 9) (Min ((\<lambda>i. dot (points ! i) (axes ! j)) ` {..<9})))
          (max (- (10 ^ 9)) (Max ((\<lambda>i. dot (points ! i) (axes ! j)) ` {..<9})))"
proof -
  let ?S = "(\<lambda>i. dot (points ! i) (axes ! j)) ` {..<(9::nat)}"
  have fin: "finite ?S" by simp
  have "(0::nat) \<in> {..<9}" by simp
  then have ne: "?S \<noteq> {}" by blast
  show ?thesis
    unfolding seen_extent_def Min_insert[OF fin ne] Max_insert[OF fin ne] ..
qed

text \<open>
  C10, as amended. For \<open>axis_count \<le> 32\<close> (with the 9 points and \<open>axis_count\<close> axes in
  the arrays) every access to the 32 extents is in bounds, and the extent of each axis is
  \<open>(min 1e9 m, max (-1e9) M)\<close> for the minimum \<open>m\<close> and the maximum \<open>M\<close> of
  \<open>dot point axis\<close> over the 9 points: exactly \<open>(m, M)\<close> whenever some projection is at most
  \<open>1e9\<close> and some is at least \<open>-1e9\<close>. The kernel is then called on these extents. For
  \<open>axis_count > 32\<close> the first loop writes past the end of the array.
\<close>

theorem find_kdop_volume_extent_buffer:
  "(axis_count \<le> 32 \<and> 9 \<le> length points \<and> axis_count \<le> length axes \<longrightarrow>
      (\<exists>axis_extents.
         find_extents indet points axes axis_count = Inr axis_extents \<and>
         length axis_extents = 32 \<and>
         find_kdop_volume srt indet points axes axis_count =
           calc_kdop_volume srt axis_count axes axis_extents \<and>
         (\<forall>j<axis_count. axis_extents ! j =
            Vec2 (min (10 ^ 9) (Min ((\<lambda>i. dot (points ! i) (axes ! j)) ` {..<9})))
                 (max (- (10 ^ 9)) (Max ((\<lambda>i. dot (points ! i) (axes ! j)) ` {..<9})))) \<and>
         (\<forall>j<axis_count.
            (\<exists>i<9. dot (points ! i) (axes ! j) \<le> 10 ^ 9) \<and>
            (\<exists>i<9. - (10 ^ 9) \<le> dot (points ! i) (axes ! j)) \<longrightarrow>
            axis_extents ! j =
              Vec2 (Min ((\<lambda>i. dot (points ! i) (axes ! j)) ` {..<9}))
                   (Max ((\<lambda>i. dot (points ! i) (axes ! j)) ` {..<9}))))) \<and>
   (32 < axis_count \<longrightarrow>
      find_extents indet points axes axis_count = Inl OutOfBounds \<and>
      find_kdop_volume srt indet points axes axis_count = Inl OutOfBounds)"
proof (intro conjI impI)
  assume "axis_count \<le> 32 \<and> 9 \<le> length points \<and> axis_count \<le> length axes"
  then have n: "axis_count \<le> 32" and p: "9 \<le> length points" and a: "axis_count \<le> length axes"
    by simp_all
  let ?buf = "map (\<lambda>j. if j < axis_count then seen_extent points axes 9 j else indet j) [0..<32]"
  have run: "find_extents indet points axes axis_count = Inr ?buf"
    by (rule find_extents_value[OF n p a])
  have cell: "?buf ! j = seen_extent points axes 9 j" if "j < axis_count" for j
    using that n by simp
  have sentinel: "\<forall>j<axis_count. ?buf ! j =
            Vec2 (min (10 ^ 9) (Min ((\<lambda>i. dot (points ! i) (axes ! j)) ` {..<9})))
                 (max (- (10 ^ 9)) (Max ((\<lambda>i. dot (points ! i) (axes ! j)) ` {..<9})))"
    using cell seen_extent_9 by simp
  have exact: "\<forall>j<axis_count.
            (\<exists>i<9. dot (points ! i) (axes ! j) \<le> 10 ^ 9) \<and>
            (\<exists>i<9. - (10 ^ 9) \<le> dot (points ! i) (axes ! j)) \<longrightarrow>
            ?buf ! j =
              Vec2 (Min ((\<lambda>i. dot (points ! i) (axes ! j)) ` {..<9}))
                   (Max ((\<lambda>i. dot (points ! i) (axes ! j)) ` {..<9}))"
  proof (intro allI impI)
    fix j
    assume j: "j < axis_count"
      and ex: "(\<exists>i<9. dot (points ! i) (axes ! j) \<le> 10 ^ 9) \<and>
               (\<exists>i<9. - (10 ^ 9) \<le> dot (points ! i) (axes ! j))"
    let ?S = "(\<lambda>i. dot (points ! i) (axes ! j)) ` {..<(9::nat)}"
    have fin: "finite ?S" by simp
    from ex obtain i where i: "i < 9" "dot (points ! i) (axes ! j) \<le> 10 ^ 9" by blast
    from i(1) have "dot (points ! i) (axes ! j) \<in> ?S" by blast
    then have "Min ?S \<le> dot (points ! i) (axes ! j)" by (rule Min_le[OF fin])
    with i(2) have lo: "Min ?S \<le> 10 ^ 9" by linarith
    from ex obtain k where k: "k < 9" "- (10 ^ 9) \<le> dot (points ! k) (axes ! j)" by blast
    from k(1) have "dot (points ! k) (axes ! j) \<in> ?S" by blast
    then have "dot (points ! k) (axes ! j) \<le> Max ?S" by (rule Max_ge[OF fin])
    with k(2) have hi: "- (10 ^ 9) \<le> Max ?S" by linarith
    show "?buf ! j = Vec2 (Min ?S) (Max ?S)"
      using sentinel j lo hi by (simp add: min_def max_def)
  qed
  have vol: "find_kdop_volume srt indet points axes axis_count =
           calc_kdop_volume srt axis_count axes ?buf"
    by (simp add: find_kdop_volume_def run)
  show "\<exists>axis_extents.
         find_extents indet points axes axis_count = Inr axis_extents \<and>
         length axis_extents = 32 \<and>
         find_kdop_volume srt indet points axes axis_count =
           calc_kdop_volume srt axis_count axes axis_extents \<and>
         (\<forall>j<axis_count. axis_extents ! j =
            Vec2 (min (10 ^ 9) (Min ((\<lambda>i. dot (points ! i) (axes ! j)) ` {..<9})))
                 (max (- (10 ^ 9)) (Max ((\<lambda>i. dot (points ! i) (axes ! j)) ` {..<9})))) \<and>
         (\<forall>j<axis_count.
            (\<exists>i<9. dot (points ! i) (axes ! j) \<le> 10 ^ 9) \<and>
            (\<exists>i<9. - (10 ^ 9) \<le> dot (points ! i) (axes ! j)) \<longrightarrow>
            axis_extents ! j =
              Vec2 (Min ((\<lambda>i. dot (points ! i) (axes ! j)) ` {..<9}))
                   (Max ((\<lambda>i. dot (points ! i) (axes ! j)) ` {..<9})))"
    using run vol sentinel exact by (intro exI[of _ ?buf]) simp
next
  assume "32 < axis_count"
  then show "find_extents indet points axes axis_count = Inl OutOfBounds"
    by (rule find_extents_overflow)
next
  assume "32 < axis_count"
  then show "find_kdop_volume srt indet points axes axis_count = Inl OutOfBounds"
    by (simp add: find_kdop_volume_def find_extents_overflow)
qed

text \<open>The theorem for nine equal points and one axis, and for \<open>axis_count = 33\<close>.\<close>

theorem find_kdop_volume_extent_buffer_witness:
  "(1::nat) \<le> 32 \<and> 9 \<le> length (replicate 9 (Vec3 (1 / 4) (1 / 2) (3 / 4))) \<and>
   (1::nat) \<le> length [Vec3 1 0 0] \<and>
   (\<forall>indet. \<exists>axis_extents.
      find_extents indet (replicate 9 (Vec3 (1 / 4) (1 / 2) (3 / 4))) [Vec3 1 0 0] 1 = Inr axis_extents \<and>
      length axis_extents = 32 \<and> axis_extents ! 0 = Vec2 (1 / 4) (1 / 4)) \<and>
   (32::nat) < 33 \<and>
   (\<forall>indet points axes. find_extents indet points axes 33 = Inl OutOfBounds)"
proof -
  let ?pts = "replicate 9 (Vec3 (1 / 4) (1 / 2) (3 / 4))"
  have "(\<lambda>i. dot (?pts ! i) ([Vec3 1 0 0] ! 0)) ` {..<9} = (\<lambda>i. 1 / 4) ` {..<(9::nat)}"
    by (rule image_cong) (simp_all add: dot_def)
  moreover have "(0::nat) \<in> {..<9}" by simp
  then have "{..<(9::nat)} \<noteq> {}" by blast
  ultimately have img: "(\<lambda>i. dot (?pts ! i) ([Vec3 1 0 0] ! 0)) ` {..<9} = {1 / 4}"
    by (simp add: image_constant_conv)
  have "\<exists>axis_extents.
      find_extents indet ?pts [Vec3 1 0 0] 1 = Inr axis_extents \<and>
      length axis_extents = 32 \<and> axis_extents ! 0 = Vec2 (1 / 4) (1 / 4)" for indet
    using find_kdop_volume_extent_buffer [of 1 ?pts "[Vec3 1 0 0]" indet sort_key] img
    by auto
  moreover have "find_extents indet points axes 33 = Inl OutOfBounds" for indet points axes
    using find_kdop_volume_extent_buffer [of 33 points axes indet sort_key] by simp
  ultimately show ?thesis by simp
qed

text \<open>
  C10 as stated, with the extent exactly the minimum and maximum for every call, fails
  when all projections exceed the initial \<open>1e9\<close>: for nine points \<open>(2e9, 0, 0)\<close> and the
  axis \<open>(1, 0, 0)\<close> the extent is \<open>(1e9, 2e9)\<close>, while the minimum projection is \<open>2e9\<close>.
\<close>

theorem find_extents_sentinel:
  "\<forall>indet. \<exists>axis_extents.
     find_extents indet (replicate 9 (Vec3 (2 * 10 ^ 9) 0 0)) [Vec3 1 0 0] 1 = Inr axis_extents \<and>
     axis_extents ! 0 = Vec2 (10 ^ 9) (2 * 10 ^ 9) \<and>
     Min ((\<lambda>i. dot (replicate 9 (Vec3 (2 * 10 ^ 9) 0 0) ! i) ([Vec3 1 0 0] ! 0)) ` {..<9}) = 2 * 10 ^ 9"
proof
  fix indet :: "nat \<Rightarrow> vec2"
  let ?pts = "replicate 9 (Vec3 (2 * 10 ^ 9) 0 0)"
  have "(\<lambda>i. dot (?pts ! i) ([Vec3 1 0 0] ! 0)) ` {..<9} = (\<lambda>i. 2 * 10 ^ 9) ` {..<(9::nat)}"
    by (rule image_cong) (simp_all add: dot_def)
  moreover have "(0::nat) \<in> {..<9}" by simp
  then have "{..<(9::nat)} \<noteq> {}" by blast
  ultimately have img: "(\<lambda>i. dot (?pts ! i) ([Vec3 1 0 0] ! 0)) ` {..<9} = {2 * 10 ^ 9}"
    by (simp add: image_constant_conv)
  have run: "find_extents indet ?pts [Vec3 1 0 0] 1 =
      Inr (map (\<lambda>j. if j < 1 then seen_extent ?pts [Vec3 1 0 0] 9 j else indet j) [0..<32])"
    by (rule find_extents_value) simp_all
  have cell: "map (\<lambda>j. if j < 1 then seen_extent ?pts [Vec3 1 0 0] 9 j else indet j) [0..<32] ! 0
      = Vec2 (10 ^ 9) (2 * 10 ^ 9)"
    using img by (simp add: seen_extent_9)
  show "\<exists>axis_extents.
     find_extents indet ?pts [Vec3 1 0 0] 1 = Inr axis_extents \<and>
     axis_extents ! 0 = Vec2 (10 ^ 9) (2 * 10 ^ 9) \<and>
     Min ((\<lambda>i. dot (?pts ! i) ([Vec3 1 0 0] ! 0)) ` {..<9}) = 2 * 10 ^ 9"
    using run cell img by simp
qed

subsection \<open>The search drivers\<close>

lemma calc_kdop_volume_one_axis: "calc_kdop_volume srt 1 [a] [r] = Inr 0"
  by (simp add: calc_kdop_volume_def sum_sides_def collect_sides_def pair_body_def side_body_def load_def upt_0_2)

lemma flt_le_refl [simp]: "flt_le a a"
  by (cases a) simp_all











subsection \<open>The final print of the sphere optimizer\<close>

lemma perturb_axes_locked:
  assumes "perturb_axes locked_axes axis_count step axes = Inr axes'"
  shows "length axes' = length axes \<and> (\<forall>i<locked_axes. axes' ! i = axes ! i)"
proof (rule for_each_partial[OF assms[unfolded perturb_axes_def],
      where I = "\<lambda>b. length b = length axes \<and> (\<forall>i<locked_axes. b ! i = axes ! i)"])
  show "length axes = length axes \<and> (\<forall>i<locked_axes. axes ! i = axes ! i)" by simp
next
  fix i and s s' :: "vec3 list"
  assume i: "i \<in> set [locked_axes..<axis_count]"
    and inv: "length s = length axes \<and> (\<forall>i<locked_axes. s ! i = axes ! i)"
    and body: "bindE (load s i) (\<lambda>v. bindE (normalize3 (vadd v (step i))) (\<lambda>u. store s i u)) = Inr s'"
  from body obtain u where "s' = s[i := u]"
    by (auto simp: bindE_def load_def store_def split: sum.splits if_splits)
  moreover have "locked_axes \<le> i" using i by simp
  ultimately show "length s' = length axes \<and> (\<forall>i<locked_axes. s' ! i = axes ! i)"
    using inv by auto
qed

lemma sphere_step_locked:
  assumes "sphere_step srt locked_axes axis_count step s = Inr s'"
  shows "length (best_axes s') = length (best_axes s) \<and>
         (\<forall>i<locked_axes. best_axes s' ! i = best_axes s ! i)"
proof -
  from assms obtain cand v where
    c: "perturb_axes locked_axes axis_count step (best_axes s) = Inr cand" and
    s': "s' = sphere_accept cand (to_float v) s"
    by (auto simp: sphere_step_def bindE_def split: sum.splits)
  from perturb_axes_locked[OF c] show ?thesis
    unfolding s' by (simp add: sphere_accept_def Let_def)
qed

lemma sphere_loop_locked:
  "sphere_loop srt locked_axes axis_count rnd j s = Inr s' \<Longrightarrow>
   length (best_axes s') = length (best_axes s) \<and>
   (\<forall>i<locked_axes. best_axes s' ! i = best_axes s ! i)"
proof (induction j arbitrary: s')
  case 0
  then show ?case by simp
next
  case (Suc j)
  from Suc.prems obtain sj where
    sj: "sphere_loop srt locked_axes axis_count rnd j s = Inr sj" and
    st: "(if perturbation sj > 1 / 10 ^ 5
          then sphere_step srt locked_axes axis_count (rnd j) sj else Inr sj) = Inr s'"
    by (auto simp: bindE_def split: sum.splits)
  have "length (best_axes s') = length (best_axes sj) \<and>
        (\<forall>i<locked_axes. best_axes s' ! i = best_axes sj ! i)"
    using st sphere_step_locked by (auto split: if_splits)
  with Suc.IH[OF sj] show ?case by simp
qed

lemma sphere_print_snaps:
  assumes "sphere_print axis_count axes = Inr (axes', printed)"
  shows "length printed = axis_count \<and> (\<forall>i<axis_count. snap_axis (axes ! i) = Inr (printed ! i))"
proof -
  have gen: "for_each [0..<k]
       (\<lambda>i (best_axes, printed).
          bindE (load best_axes i) (\<lambda>v.
          bindE (snap_axis v) (\<lambda>u.
          bindE (store best_axes i u) (\<lambda>best_axes.
          Inr (best_axes, printed @ [u])))))
       (axes, []) = Inr (b, pr) \<Longrightarrow>
     length b = length axes \<and> (\<forall>i. k \<le> i \<longrightarrow> b ! i = axes ! i) \<and>
     length pr = k \<and> (\<forall>i<k. snap_axis (axes ! i) = Inr (pr ! i))" for k b pr
  proof (induction k arbitrary: b pr)
    case 0
    then show ?case by simp
  next
    case (Suc k)
    from Suc.prems obtain b0 pr0 where
      run: "for_each [0..<k]
       (\<lambda>i (best_axes, printed).
          bindE (load best_axes i) (\<lambda>v.
          bindE (snap_axis v) (\<lambda>u.
          bindE (store best_axes i u) (\<lambda>best_axes.
          Inr (best_axes, printed @ [u])))))
       (axes, []) = Inr (b0, pr0)" and
      body: "bindE (load b0 k) (\<lambda>v.
          bindE (snap_axis v) (\<lambda>u.
          bindE (store b0 k u) (\<lambda>best_axes.
          Inr (best_axes, pr0 @ [u])))) = Inr (b, pr)"
      by (auto simp: for_each_append bindE_def split: sum.splits)
    from Suc.IH[OF run] have ih: "length b0 = length axes" "\<forall>i. k \<le> i \<longrightarrow> b0 ! i = axes ! i"
      "length pr0 = k" "\<forall>i<k. snap_axis (axes ! i) = Inr (pr0 ! i)" by simp_all
    from body obtain u where u: "k < length b0" "snap_axis (b0 ! k) = Inr u" "b = b0[k := u]" "pr = pr0 @ [u]"
      by (auto simp: bindE_def load_def store_def split: sum.splits if_splits)
    have "snap_axis (axes ! k) = Inr u" using u(2) ih(2) by simp
    then show ?case using ih u by (auto simp: nth_append less_Suc_eq)
  qed
  from gen[OF assms[unfolded sphere_print_def]] show ?thesis by simp
qed

lemma sqrt_q_bounds: "1 \<le> sqrt (1000001 / 1000000)" "sqrt (1000001 / 1000000) \<le> 2"
proof -
  show "1 \<le> sqrt (1000001 / 1000000)" by simp
  have "sqrt (1000001 / 1000000) \<le> sqrt 4" by (subst real_sqrt_le_iff) simp
  then show "sqrt (1000001 / 1000000) \<le> 2" by simp
qed

lemma normalize_input: "normalize3 (Vec3 1 (1 / 1000) 0) = Inr tilted"
  by (simp add: normalize3_def tilted_def dot_def)

lemma tilted_components:
  "v3x tilted = 1 / sqrt (1000001 / 1000000)"
  "v3y tilted = (1 / 1000) / sqrt (1000001 / 1000000)"
  "v3z tilted = 0"
  by (simp_all add: tilted_def smul_def)

lemma tilted_not_basis: "tilted \<noteq> Vec3 1 0 0"
proof
  assume "tilted = Vec3 1 0 0"
  from arg_cong[OF this, of v3y] have "v3y tilted = 0" by simp
  then show False by (simp add: tilted_components)
qed

lemma normalize3_axis_x:
  assumes "0 < c"
  shows "normalize3 (Vec3 c 0 0) = Inr (Vec3 1 0 0)"
proof -
  have d: "dot (Vec3 c 0 0) (Vec3 c 0 0) = c * c" by (simp add: dot_def)
  have r: "sqrt (c * c) = c" using assms by simp
  have nz: "c * c \<noteq> 0" using assms by simp
  show ?thesis
    unfolding normalize3_def d r using assms nz by (simp add: smul_def)
qed

lemma snap_tilted: "snap_axis tilted = Inr (Vec3 1 0 0)"
proof -
  let ?q = "sqrt (1000001 / 1000000)"
  have q: "1 \<le> ?q" "?q \<le> 2" by (rule sqrt_q_bounds)+
  have qpos: "0 < ?q" using q(1) by linarith
  have x: "\<not> \<bar>1 / ?q\<bar> < 5 / 10 ^ 3"
  proof -
    have a: "1 / 2 \<le> 1 / ?q" using q(2) qpos by (simp add: field_simps)
    have b: "0 \<le> 1 / ?q" using qpos by simp
    have c: "(5::real) / 10 ^ 3 = 5 / 1000" by simp
    from a show ?thesis unfolding abs_of_nonneg[OF b] c by linarith
  qed
  have y: "\<bar>(1 / 1000) / ?q\<bar> < 5 / 10 ^ 3"
  proof -
    have a: "(1 / 1000) / ?q \<le> 1 / 1000" using q(1) qpos by (simp add: field_simps)
    have b: "0 \<le> (1 / 1000) / ?q" using qpos by simp
    have c: "(5::real) / 10 ^ 3 = 5 / 1000" by simp
    from a show ?thesis unfolding abs_of_nonneg[OF b] c by linarith
  qed
  have snapped: "snap_axis tilted = normalize3 (Vec3 (1 / ?q) 0 0)"
    using x y by (simp add: snap_axis_def Let_def tilted_def smul_def)
  have "0 < 1 / ?q" using qpos by simp
  then have "normalize3 (Vec3 (1 / ?q) 0 0) = Inr (Vec3 1 0 0)"
    by (rule normalize3_axis_x)
  with snapped show ?thesis by simp
qed

lemma sphere_init_tilted:
  "sphere_init 1 [1, 1 / 1000, 0] =
     Inr (\<lparr>best_volume = Infinity, best_axes = [tilted], no_improvement = 0, perturbation = 2\<rparr>, 1)"
  by (simp add: sphere_init_def read_forced_def normalize_locked_def upt_0_3 load_def store_def
      vec3_set_def zero3_def normalize_input Let_def)

lemma sphere_print_tilted: "sphere_print 1 [tilted] = Inr ([Vec3 1 0 0], [Vec3 1 0 0])"
  by (simp add: sphere_print_def load_def store_def snap_tilted)

lemma sphere_loop_tilted:
  "\<exists>s'. sphere_loop srt 1 1 rnd j
          \<lparr>best_volume = Infinity, best_axes = [tilted], no_improvement = 0, perturbation = 2\<rparr> = Inr s'
        \<and> best_axes s' = [tilted]"
proof (induction j)
  case 0
  then show ?case by simp
next
  case (Suc j)
  then obtain sj where sj: "sphere_loop srt 1 1 rnd j
          \<lparr>best_volume = Infinity, best_axes = [tilted], no_improvement = 0, perturbation = 2\<rparr> = Inr sj"
    and ax: "best_axes sj = [tilted]" by blast
  have step: "sphere_step srt 1 1 (rnd j) sj = Inr (sphere_accept [tilted] (to_float 0) sj)"
    using calc_kdop_volume_one_axis[of srt tilted "Vec2 (- 1) 1"]
    by (simp add: sphere_step_def perturb_axes_def ax)
  have "best_axes (sphere_accept [tilted] (to_float 0) sj) = [tilted]"
    by (simp add: sphere_accept_def Let_def ax)
  then show ?case using sj ax step by simp
qed

text \<open>
  C9. The final loop prints, for every index below \<open>axis_count\<close>, the best axis with each
  component of absolute value below \<open>5e-3\<close> set to zero and then normalized; the locked
  axes are among them, and the search never changes a locked axis. So for the locked axis
  \<open>(1, 0.001, 0)\<close> (\<^verbatim>\<open>sphere_optimizer 1 1 0.001 0\<close>) the best axis is its normalization
  \<open>u\<close> after any number of iterations, while the axis printed is \<open>(1, 0, 0)\<close>, which is
  not \<open>u\<close>.
\<close>

theorem sphere_print_snaps_locked_axes:
  "(sphere_print axis_count axes = Inr (axes', printed) \<longrightarrow>
      length printed = axis_count \<and>
      (\<forall>i<axis_count. snap_axis (axes ! i) = Inr (printed ! i))) \<and>
   (sphere_loop srt locked_axes axis_count rnd j s = Inr s' \<longrightarrow>
      (\<forall>i<locked_axes. best_axes s' ! i = best_axes s ! i)) \<and>
   (\<exists>s0 u. sphere_init 1 [1, 1 / 1000, 0] = Inr (s0, 1) \<and>
      normalize3 (Vec3 1 (1 / 1000) 0) = Inr u \<and> best_axes s0 = [u] \<and>
      (\<forall>srt rnd j. \<exists>s'. sphere_loop srt 1 1 rnd j s0 = Inr s' \<and> best_axes s' = [u] \<and>
         sphere_print 1 (best_axes s') = Inr ([Vec3 1 0 0], [Vec3 1 0 0])) \<and>
      Vec3 1 0 0 \<noteq> u)"
proof (intro conjI impI)
  assume "sphere_print axis_count axes = Inr (axes', printed)"
  from sphere_print_snaps[OF this]
  show "length printed = axis_count" and "\<forall>i<axis_count. snap_axis (axes ! i) = Inr (printed ! i)"
    by simp_all
next
  assume "sphere_loop srt locked_axes axis_count rnd j s = Inr s'"
  from sphere_loop_locked[OF this]
  show "\<forall>i<locked_axes. best_axes s' ! i = best_axes s ! i" by simp
next
  let ?s0 = "\<lparr>best_volume = Infinity, best_axes = [tilted], no_improvement = 0, perturbation = 2\<rparr>"
  have "\<exists>s'. sphere_loop srt 1 1 rnd j ?s0 = Inr s' \<and> best_axes s' = [tilted] \<and>
         sphere_print 1 (best_axes s') = Inr ([Vec3 1 0 0], [Vec3 1 0 0])" for srt rnd j
    using sphere_loop_tilted[of srt rnd j] sphere_print_tilted by auto
  then show "\<exists>s0 u. sphere_init 1 [1, 1 / 1000, 0] = Inr (s0, 1) \<and>
      normalize3 (Vec3 1 (1 / 1000) 0) = Inr u \<and> best_axes s0 = [u] \<and>
      (\<forall>srt rnd j. \<exists>s'. sphere_loop srt 1 1 rnd j s0 = Inr s' \<and> best_axes s' = [u] \<and>
         sphere_print 1 (best_axes s') = Inr ([Vec3 1 0 0], [Vec3 1 0 0])) \<and>
      Vec3 1 0 0 \<noteq> u"
    using sphere_init_tilted normalize_input tilted_not_basis
    by (intro exI[of _ ?s0] exI[of _ tilted]) auto
qed

text \<open>The theorem on the printing of that axis.\<close>

theorem sphere_print_snaps_locked_axes_witness:
  "sphere_print 1 [tilted] = Inr ([Vec3 1 0 0], [Vec3 1 0 0]) \<and>
   snap_axis ([tilted] ! 0) = Inr ([Vec3 1 0 0] ! 0) \<and>
   sphere_loop sort_key 1 1 (\<lambda>j i. Vec3 0 0 1) 0
     \<lparr>best_volume = Infinity, best_axes = [tilted], no_improvement = 0, perturbation = 2\<rparr> =
     Inr \<lparr>best_volume = Infinity, best_axes = [tilted], no_improvement = 0, perturbation = 2\<rparr> \<and>
   tilted \<noteq> Vec3 1 0 0"
  using sphere_print_snaps_locked_axes [of 1 "[tilted]" "[Vec3 1 0 0]" "[Vec3 1 0 0]" sort_key 1
      "\<lambda>j i. Vec3 0 0 1" 0
      "\<lparr>best_volume = Infinity, best_axes = [tilted], no_improvement = 0, perturbation = 2\<rparr>"
      "\<lparr>best_volume = Infinity, best_axes = [tilted], no_improvement = 0, perturbation = 2\<rparr>"]
    sphere_print_tilted tilted_not_basis
  by simp


end
